theory Spec2Isabelle
  imports Complex_Main "HOL-Library.Word"
begin

section \<open>JavaScript strings and arrays\<close>

text \<open>
  A JavaScript string is a sequence of UTF-16 code units and \<open>length\<close> counts code
  units, so a string is a list of 16-bit words.  \<open>js_of\<close> turns an ASCII literal into
  such a string.
\<close>

type_synonym code_unit = "16 word"
type_synonym jsstring = "code_unit list"

definition js_of :: "string \<Rightarrow> jsstring" where
  "js_of s = map (\<lambda>c. of_nat (of_char c)) s"

text \<open>
  \<open>String.prototype.trim\<close> strips WhiteSpace and LineTerminator code points from both
  ends: TAB, LF, VT, FF, CR, SPACE, NBSP, U+1680, U+2000..U+200A, U+2028, U+2029, U+202F,
  U+205F, U+3000 and U+FEFF.
\<close>

definition is_ws :: "code_unit \<Rightarrow> bool" where
  "is_ws c \<longleftrightarrow>
     c = 0x9 \<or> c = 0xA \<or> c = 0xB \<or> c = 0xC \<or> c = 0xD \<or> c = 0x20 \<or> c = 0xA0 \<or>
     c = 0x1680 \<or> (0x2000 \<le> c \<and> c \<le> 0x200A) \<or> c = 0x2028 \<or> c = 0x2029 \<or>
     c = 0x202F \<or> c = 0x205F \<or> c = 0x3000 \<or> c = 0xFEFF"

definition trim :: "jsstring \<Rightarrow> jsstring" where
  "trim s = rev (dropWhile is_ws (rev (dropWhile is_ws s)))"

text \<open>The character class \<open>[.!?]\<close> of the sentence splitter.\<close>

definition is_terminal :: "code_unit \<Rightarrow> bool" where
  "is_terminal c \<longleftrightarrow> c = 0x2E \<or> c = 0x21 \<or> c = 0x3F"

text \<open>
  \<open>text.split(/[.!?]+/)\<close>: the pieces between the maximal runs of terminal characters.
  A run at the start or at the end of the text leaves an empty piece there, and a text
  without any terminal character (the empty text too) is a single piece.
\<close>

function split_terminal :: "jsstring \<Rightarrow> jsstring \<Rightarrow> jsstring list" where
  "split_terminal cur [] = [cur]"
| "split_terminal cur (c # cs) =
     (if is_terminal c then cur # split_terminal [] (dropWhile is_terminal cs)
      else split_terminal (cur @ [c]) cs)"
  by pat_completeness auto
termination
  by (relation "measure (\<lambda>(cur, s). length s)")
     (auto simp: less_Suc_eq_le length_dropWhile_le)

text \<open>\<open>s.split(' ')\<close>: the pieces between the single occurrences of the separator.\<close>

fun split_on :: "code_unit \<Rightarrow> jsstring \<Rightarrow> jsstring \<Rightarrow> jsstring list" where
  "split_on sep cur [] = [cur]"
| "split_on sep cur (c # cs) =
     (if c = sep then cur # split_on sep [] cs else split_on sep (cur @ [c]) cs)"

abbreviation space :: code_unit where
  "space \<equiv> 0x20"

text \<open>\<open>words.join(' ')\<close>.\<close>

fun join_space :: "jsstring list \<Rightarrow> jsstring" where
  "join_space [] = []"
| "join_space [w] = w"
| "join_space (w # v # ws) = w @ space # join_space (v # ws)"

text \<open>
  \<open>Array.prototype.slice(start)\<close> with an integer \<open>start\<close>: a negative start counts
  from the end and is clamped at 0, a non-negative one is clamped at the length.  \<open>-0\<close>
  is 0, so \<open>slice(-0)\<close> is the whole array.
\<close>

definition js_slice :: "int \<Rightarrow> 'a list \<Rightarrow> 'a list" where
  "js_slice start xs =
     (let n = int (length xs);
          k = (if start < 0 then max (n + start) 0 else min start n)
      in drop (nat k) xs)"

text \<open>
  \<open>Array.prototype.slice(start, end)\<close> with integer arguments.
\<close>

definition js_slice_range :: "int \<Rightarrow> int \<Rightarrow> 'a list \<Rightarrow> 'a list" where
  "js_slice_range start end xs =
     (let n = int (length xs);
          k = (if start < 0 then max (n + start) 0 else min start n);
          final = (if end < 0 then max (n + end) 0 else min end n)
      in take (nat (final - k)) (drop (nat k) xs))"

section \<open>Chunker: \<open>splitTextIntoChunks\<close>\<close>

text \<open>
  The words carried over into the next chunk:
  \<open>currentChunk.split(' ').slice(-Math.floor(overlap / 5)).join(' ')\<close>.
  On integers \<open>Math.floor(overlap / 5)\<close> is \<open>overlap div 5\<close>.
\<close>

definition overlap_seed :: "int \<Rightarrow> jsstring \<Rightarrow> jsstring" where
  "overlap_seed overlap currentChunk =
     join_space (js_slice (- (overlap div 5)) (split_on space [] currentChunk))"

text \<open>
  The body of \<open>for (const sentence of sentences)\<close>, on the state
  \<open>(chunks, currentChunk)\<close>.
\<close>

fun chunk_loop ::
  "int \<Rightarrow> int \<Rightarrow> jsstring list \<times> jsstring \<Rightarrow> jsstring list \<Rightarrow> jsstring list \<times> jsstring"
where
  "chunk_loop chunkSize overlap (chunks, currentChunk) [] = (chunks, currentChunk)"
| "chunk_loop chunkSize overlap (chunks, currentChunk) (sentence # rest) =
     (let trimmedSentence = trim sentence in
      if trimmedSentence = [] then chunk_loop chunkSize overlap (chunks, currentChunk) rest
      else if int (length currentChunk) + int (length trimmedSentence) > chunkSize
              \<and> length currentChunk > 0
      then chunk_loop chunkSize overlap
             (chunks @ [trim currentChunk],
              overlap_seed overlap currentChunk @ space # trimmedSentence) rest
      else chunk_loop chunkSize overlap
             (chunks, currentChunk @ space # trimmedSentence) rest)"

definition sentences_of :: "jsstring \<Rightarrow> jsstring list" where
  "sentences_of text = filter (\<lambda>s. length (trim s) > 0) (split_terminal [] text)"

text \<open>The chunks pushed by the loop and by the final flush, before the length filter.\<close>

definition pushed_chunks :: "jsstring \<Rightarrow> int \<Rightarrow> int \<Rightarrow> jsstring list" where
  "pushed_chunks text chunkSize overlap =
     (case chunk_loop chunkSize overlap ([], []) (sentences_of text) of
        (chunks, currentChunk) \<Rightarrow>
          if length (trim currentChunk) > 0 then chunks @ [trim currentChunk] else chunks)"

definition splitTextIntoChunks :: "jsstring \<Rightarrow> int \<Rightarrow> int \<Rightarrow> jsstring list" where
  "splitTextIntoChunks text chunkSize overlap =
     filter (\<lambda>chunk. length chunk > 10) (pushed_chunks text chunkSize overlap)"

text \<open>
  A buffer that has just been started: one sentence of \<open>T\<close>, after nothing (the first
  sentence) or after the overlap seed of a buffer whose chunk is in \<open>P\<close>.
\<close>

definition seeded :: "int \<Rightarrow> jsstring set \<Rightarrow> jsstring set \<Rightarrow> jsstring \<Rightarrow> bool" where
  "seeded ov T P cur \<longleftrightarrow> (\<exists>t seed. t \<in> T \<and> cur = seed @ space # t \<and>
     (seed = [] \<or> (\<exists>b. trim b \<in> P \<and> seed = overlap_seed ov b)))"

section \<open>JavaScript values\<close>

text \<open>
  The value of \<open>await req.json()\<close> and of the properties read from it.  A number carries
  its value; \<open>Undefined\<close> is what reading an absent property gives.
\<close>

datatype jsval =
    Undefined | Null | Bool bool | Num rat | Str jsstring
  | Arr "jsval list" | Obj "(string \<times> jsval) list"

text \<open>\<open>!v\<close> is \<open>\<not> truthy v\<close>.\<close>

fun truthy :: "jsval \<Rightarrow> bool" where
  "truthy Undefined = False"
| "truthy Null = False"
| "truthy (Bool b) = b"
| "truthy (Num n) = (n \<noteq> 0)"
| "truthy (Str s) = (s \<noteq> [])"
| "truthy (Arr xs) = True"
| "truthy (Obj kvs) = True"

section \<open>Effects and errors\<close>

text \<open>
  The edge functions talk to the outside world: HTTP requests to the embedding and chat
  endpoints, queries against the database, timers and the structured logger.  Each model
  function returns, next to its result, the list of effects it performed, in order.  What
  the outside world answers is a parameter of the model.
\<close>

datatype level = Info | Warning | Err

type_synonym uuid = jsstring

datatype effect =
    Sleep nat \<comment> \<open>\<open>await new Promise(resolve => setTimeout(resolve, ms))\<close>\<close>
  | Log level string \<comment> \<open>\<open>logger(level, message, meta)\<close>\<close>
  | EmbeddingRequest "jsstring list" \<comment> \<open>POST to the embeddings endpoint, with its \<open>input\<close>\<close>
  | QueryEmbeddingRequest jsval \<comment> \<open>the same, with the query as the only input\<close>
  | ChatRequest jsstring jsval \<comment> \<open>POST to the chat endpoint: system and user message\<close>
  | AuthGetUser jsstring \<comment> \<open>\<open>auth.getUser(token)\<close>\<close>
  | SelectDocuments uuid \<comment> \<open>the completed documents uploaded by a user\<close>
  | RpcMatchDocuments
  | SelectChunks "uuid list" \<comment> \<open>the fallback query, with the document ids\<close>
  | UpdateStatus jsval string \<comment> \<open>document id and new \<open>processing_status\<close>\<close>
  | Download jsval \<comment> \<open>\<open>storage.from('documents').download(filePath)\<close>\<close>
  | InsertChunks nat \<comment> \<open>the insert of the chunk records, with their number\<close>

text \<open>
  A thrown \<open>Error\<close>.  \<open>Thrown\<close> is an error raised by a collaborator (a rejected
  \<open>fetch\<close>, a body that does not parse, a property read on \<open>undefined\<close>), with its
  message.
\<close>

datatype error =
    MissingApiKey \<comment> \<open>\<open>GROQ_API_KEY environment variable not set\<close>\<close>
  | GroqApiError nat string \<comment> \<open>\<open>Groq API error: ${response.status} ${errorText}\<close>\<close>
  | QueryEmbeddingFailed nat \<comment> \<open>\<open>Failed to generate query embedding: ${response.status}\<close>\<close>
  | MaxAttempts \<comment> \<open>\<open>Failed to generate response after maximum attempts\<close>\<close>
  | FetchDocumentsFailed string \<comment> \<open>\<open>Failed to fetch user documents: ${docsError.message}\<close>\<close>
  | FallbackSearchFailed string \<comment> \<open>\<open>Fallback search failed: ${error.message}\<close>\<close>
  | DownloadFailed string \<comment> \<open>\<open>Failed to download file: ${...}\<close>\<close>
  | NoTextContent \<comment> \<open>\<open>No text content extracted from file\<close>\<close>
  | UnsupportedFileType jsstring \<comment> \<open>\<open>Unsupported file type: ${extension}\<close>\<close>
  | NoChunks \<comment> \<open>\<open>No chunks created from text content\<close>\<close>
  | StoreChunksFailed string \<comment> \<open>\<open>Failed to store chunks: ${insertError.message}\<close>\<close>
  | Thrown string

text \<open>
  An HTTP response as the code reads it: the status, what \<open>await response.text()\<close>
  gives (awaited on a status that is not ok) and what reading the expected fields of
  \<open>await response.json()\<close> gives (on success); each is \<open>Inl\<close> the message of the
  error when that read throws.
\<close>

datatype 'a response =
  Response (status: nat) (body_text: "string + string") (body_data: "string + 'a")

definition ok :: "'a response \<Rightarrow> bool" where
  "ok r \<longleftrightarrow> 200 \<le> status r \<and> status r \<le> 299"

text \<open>The outcome of \<open>await fetch(...)\<close>: rejected with a message, or a response.\<close>

type_synonym 'a fetched = "string + 'a response"

text \<open>\<open>!GROQ_API_KEY\<close>: the variable is unset or the empty string.\<close>

definition key_missing :: "string option \<Rightarrow> bool" where
  "key_missing key \<longleftrightarrow> (case key of None \<Rightarrow> True | Some k \<Rightarrow> k = [])"

section \<open>Embedding client: \<open>generateEmbeddingsForChunks\<close>\<close>

abbreviation batchSize :: int where
  "batchSize \<equiv> 10"

text \<open>
  The \<open>for\<close> loop over the batches.  \<open>svc n batch\<close> is the outcome of the \<open>n\<close>-th
  request, sent with \<open>batch\<close> as its input.  The state is the loop index \<open>i\<close>, the
  vectors collected so far, the number of requests made and the effects so far.  On a
  status that is not ok the body is read as text first, inside the \<open>try\<close>; then, on a
  429, the body of the loop runs \<open>i -= batchSize; continue\<close> and the loop header runs
  \<open>i += batchSize\<close>.  The loop need not end, so not returning is \<open>None\<close>.
\<close>

partial_function (option) embed_loop ::
  "(nat \<Rightarrow> jsstring list \<Rightarrow> 'v list fetched) \<Rightarrow> jsstring list \<Rightarrow> int \<Rightarrow> 'v list \<Rightarrow> nat \<Rightarrow>
   effect list \<Rightarrow> ((error + 'v list) \<times> effect list) option"
where
  "embed_loop svc chunks i embeddings calls trace =
     (if i < int (length chunks) then
        (case svc calls (js_slice_range i (i + batchSize) chunks) of
           Inl message \<Rightarrow>
             Some (Inl (Thrown message),
               trace @ [EmbeddingRequest (js_slice_range i (i + batchSize) chunks),
                        Log Err ''Failed to generate embeddings for batch''])
         | Inr response \<Rightarrow>
             if \<not> ok response then
               (case body_text response of
                  Inl message \<Rightarrow>
                    Some (Inl (Thrown message),
                      trace @ [EmbeddingRequest (js_slice_range i (i + batchSize) chunks),
                               Log Err ''Failed to generate embeddings for batch''])
                | Inr errorText \<Rightarrow>
                    if status response = 429 then
                      embed_loop svc chunks ((i - batchSize) + batchSize) embeddings
                        (calls + 1)
                        (trace @ [EmbeddingRequest (js_slice_range i (i + batchSize) chunks),
                                  Log Err ''Groq API error'', Sleep 2000])
                    else
                      Some (Inl (GroqApiError (status response) errorText),
                        trace @ [EmbeddingRequest (js_slice_range i (i + batchSize) chunks),
                                 Log Err ''Groq API error'',
                                 Log Err ''Failed to generate embeddings for batch'']))
             else
               (case body_data response of
                  Inl message \<Rightarrow>
                    Some (Inl (Thrown message),
                      trace @ [EmbeddingRequest (js_slice_range i (i + batchSize) chunks),
                               Log Err ''Failed to generate embeddings for batch''])
                | Inr batchEmbeddings \<Rightarrow>
                    embed_loop svc chunks (i + batchSize) (embeddings @ batchEmbeddings)
                      (calls + 1)
                      (trace @ [EmbeddingRequest (js_slice_range i (i + batchSize) chunks)] @
                         (if i + batchSize < int (length chunks) then [Sleep 500] else []))))
      else Some (Inr embeddings, trace))"

text \<open>The equation of the loop is also what evaluates it.\<close>

declare embed_loop.simps [code]

definition generateEmbeddingsForChunks ::
  "string option \<Rightarrow> (nat \<Rightarrow> jsstring list \<Rightarrow> 'v list fetched) \<Rightarrow> jsstring list \<Rightarrow>
   ((error + 'v list) \<times> effect list) option"
where
  "generateEmbeddingsForChunks key svc chunks =
     (if key_missing key then Some (Inl MissingApiKey, [])
      else embed_loop svc chunks 0 [] 0 [])"

text \<open>The inputs of the embedding requests among the effects, in order.\<close>

fun requests :: "effect list \<Rightarrow> jsstring list list" where
  "requests [] = []"
| "requests (EmbeddingRequest batch # es) = batch # requests es"
| "requests (e # es) = requests es"

text \<open>
  The assumption on the embedding endpoint: the vectors of a successful response are
  aligned with the texts of the request, one vector per text, \<open>R text vector\<close> saying that
  the vector is the one of the text.
\<close>

definition aligned_service ::
  "(jsstring \<Rightarrow> 'v \<Rightarrow> bool) \<Rightarrow> (nat \<Rightarrow> jsstring list \<Rightarrow> 'v list fetched) \<Rightarrow> bool" where
  "aligned_service R svc \<longleftrightarrow>
     (\<forall>n batch r bs. svc n batch = Inr r \<and> ok r \<and> body_data r = Inr bs \<longrightarrow> list_all2 R batch bs)"

text \<open>From its \<open>c\<close>-th request on, the endpoint answers every request with success.\<close>

definition ok_from :: "nat \<Rightarrow> (nat \<Rightarrow> jsstring list \<Rightarrow> 'v list fetched) \<Rightarrow> bool" where
  "ok_from c svc \<longleftrightarrow>
     (\<forall>n\<ge>c. \<forall>batch. \<exists>r bs. svc n batch = Inr r \<and> ok r \<and> body_data r = Inr bs)"

text \<open>The outcome of a request is a response with status 429.\<close>

definition rate_limited :: "'a fetched \<Rightarrow> bool" where
  "rate_limited f \<longleftrightarrow> (case f of Inl _ \<Rightarrow> False | Inr r \<Rightarrow> status r = 429)"

text \<open>The outcome of a request is a response whose body can be read as text.\<close>

definition body_read :: "'a fetched \<Rightarrow> bool" where
  "body_read f \<longleftrightarrow>
     (case f of
        Inl _ \<Rightarrow> False
      | Inr r \<Rightarrow> (case body_text r of Inl _ \<Rightarrow> False | Inr _ \<Rightarrow> True))"

definition retryable :: "'a fetched \<Rightarrow> bool" where
  "retryable f \<longleftrightarrow> rate_limited f \<and> body_read f"

text \<open>
  Stand-ins for the endpoint, to run the client on concrete inputs: the vector of a text is
  its length.  \<open>busy_service k\<close> answers 429 to its first \<open>k\<close> requests,
  \<open>jammed_service\<close> to all of them.
\<close>

definition length_service :: "nat \<Rightarrow> jsstring list \<Rightarrow> nat list fetched" where
  "length_service n batch = Inr (Response 200 (Inr []) (Inr (map length batch)))"

definition busy_service :: "nat \<Rightarrow> nat \<Rightarrow> jsstring list \<Rightarrow> nat list fetched" where
  "busy_service k n batch =
     (if n < k then Inr (Response 429 (Inr ''rate limit'') (Inl []))
      else Inr (Response 200 (Inr []) (Inr (map length batch))))"

definition jammed_service :: "nat \<Rightarrow> jsstring list \<Rightarrow> nat list fetched" where
  "jammed_service n batch = Inr (Response 429 (Inr ''rate limit'') (Inl []))"

text \<open>An endpoint whose 429 responses break off before the body has been read.\<close>

definition torn_service :: "nat \<Rightarrow> jsstring list \<Rightarrow> nat list fetched" where
  "torn_service n batch = Inr (Response 429 (Inl ''terminated'') (Inl []))"

section \<open>Replies and the control flow of a handler\<close>

text \<open>
  Destructuring \<open>const { k, ... } = v\<close>: reading a property of \<open>null\<close> or
  \<open>undefined\<close> throws a \<open>TypeError\<close>; an object gives the property's value or
  \<open>undefined\<close>; the properties read by the handlers (\<open>query\<close>, \<open>userId\<close>,
  \<open>filePath\<close>, \<open>fileName\<close>, \<open>documentId\<close>) are \<open>undefined\<close> on any other value.
\<close>

fun get_prop :: "string \<Rightarrow> jsval \<Rightarrow> error + jsval" where
  "get_prop k Undefined = Inl (Thrown ''TypeError'')"
| "get_prop k Null = Inl (Thrown ''TypeError'')"
| "get_prop k (Obj kvs) = Inr (case map_of kvs k of None \<Rightarrow> Undefined | Some v \<Rightarrow> v)"
| "get_prop k v = Inr Undefined"

text \<open>The responses of the two edge functions, each with its HTTP status.\<close>

datatype reply =
    PlainText nat string \<comment> \<open>\<open>new Response('Method not allowed', { status: 405 })\<close>\<close>
  | ErrorJson nat string \<comment> \<open>\<open>{ error }\<close>\<close>
  | AnswerJson nat string "(uuid \<times> real) list" \<comment> \<open>\<open>{ answer, sourceChunks }\<close>\<close>
  | IngestDone nat jsval nat \<comment> \<open>\<open>{ success: true, documentId, chunksProcessed }\<close>\<close>
  | IngestFailed nat error \<comment> \<open>\<open>{ success: false, error: err.message }\<close>\<close>

text \<open>
  A piece of a handler's \<open>try\<close> block either goes on with a value, returns a response
  or throws; it comes with the effects it performed.
\<close>

datatype 'a step = Next 'a | Reply reply | Throw error

type_synonym 'a run = "effect list \<times> 'a step"

definition bindS :: "'a run \<Rightarrow> ('a \<Rightarrow> 'b run) \<Rightarrow> 'b run" where
  "bindS m f =
     (case m of
        (tr, Next x) \<Rightarrow> (case f x of (tr', r) \<Rightarrow> (tr @ tr', r))
      | (tr, Reply r) \<Rightarrow> (tr, Reply r)
      | (tr, Throw e) \<Rightarrow> (tr, Throw e))"

definition lift :: "error + 'a \<Rightarrow> 'a run" where
  "lift r = (case r of Inl e \<Rightarrow> ([], Throw e) | Inr x \<Rightarrow> ([], Next x))"

text \<open>\<open>createSupabaseAdmin()\<close> throws when the environment variables are missing.\<close>

definition createSupabaseAdmin :: "bool \<Rightarrow> unit run" where
  "createSupabaseAdmin configured =
     (if configured then ([], Next ())
      else ([], Throw (Thrown ''Missing Supabase environment variables'')))"

text \<open>\<open>authHeader.replace('Bearer ', '')\<close>: the first occurrence is removed.\<close>

fun replace_first :: "jsstring \<Rightarrow> jsstring \<Rightarrow> jsstring" where
  "replace_first pat [] = []"
| "replace_first pat (c # cs) =
     (if pat \<noteq> [] \<and> take (length pat) (c # cs) = pat then drop (length pat) (c # cs)
      else c # replace_first pat cs)"

text \<open>
  The verification of the session, shared by the two handlers.  \<open>auth_user token\<close> is
  what \<open>auth.getUser(token)\<close> resolves to: the user's id, if any, and the error, if any
  (\<open>Inl\<close> when the call throws).  The result is the id of the verified user.
\<close>

definition verify_session ::
  "bool \<Rightarrow> (jsstring \<Rightarrow> string + (uuid option \<times> string option)) \<Rightarrow> jsstring option \<Rightarrow> jsval \<Rightarrow>
   uuid run"
where
  "verify_session configured auth_user authHeader userId =
     (case authHeader of
        None \<Rightarrow> ([], Reply (ErrorJson 401 ''Missing authorization''))
      | Some h \<Rightarrow>
          if h = [] then ([], Reply (ErrorJson 401 ''Missing authorization''))
          else bindS (createSupabaseAdmin configured) (\<lambda>_.
            case auth_user (replace_first (js_of ''Bearer '') h) of
              Inl message \<Rightarrow>
                ([AuthGetUser (replace_first (js_of ''Bearer '') h)], Throw (Thrown message))
            | Inr (user, authError) \<Rightarrow>
                (case user of
                   Some uid \<Rightarrow>
                     if authError = None \<and> Str uid = userId
                     then ([AuthGetUser (replace_first (js_of ''Bearer '') h)], Next uid)
                     else ([AuthGetUser (replace_first (js_of ''Bearer '') h)],
                           Reply (ErrorJson 401 ''Unauthorized''))
                 | None \<Rightarrow>
                     ([AuthGetUser (replace_first (js_of ''Bearer '') h)],
                      Reply (ErrorJson 401 ''Unauthorized'')))))"

section \<open>The database\<close>

text \<open>
  The two tables of the migration.  \<open>uploaded_by\<close>, \<open>processing_status\<close>,
  \<open>document_id\<close> and \<open>chunk_embedding\<close> are nullable columns; the \<open>CHECK\<close>
  constraint restricts a status to the four values.
\<close>

datatype processing = Pending | Processing | Completed | Failed

record document =
  doc_id :: uuid
  doc_name :: string
  uploaded_by :: "uuid option"
  file_path :: string
  processing_status :: "processing option"

record 'e chunk =
  chunk_id :: uuid
  document_id :: "uuid option"
  chunk_text :: jsstring
  chunk_embedding :: "'e option"
  chunk_index :: int

record 'e database =
  documents :: "document list"
  document_chunks :: "'e chunk list"

text \<open>A row returned by \<open>match_documents\<close> or built by the fallback search.\<close>

record match_row =
  row_id :: uuid
  row_document_id :: "uuid option"
  row_chunk_text :: jsstring
  similarity :: real

text \<open>
  The SQL function \<open>match_documents\<close>.  \<open>distance\<close> is the operator \<open><=>\<close>; a row
  with a null embedding has a null similarity and does not pass the \<open>WHERE\<close> clause.
  Rows at the same distance are kept in their stored order.
\<close>

definition match_documents ::
  "('e \<Rightarrow> 'e \<Rightarrow> real) \<Rightarrow> 'e chunk list \<Rightarrow> 'e \<Rightarrow> real \<Rightarrow> int \<Rightarrow> match_row list"
where
  "match_documents distance chunks query_embedding match_threshold match_count =
     map (\<lambda>(c, d). \<lparr>row_id = chunk_id c, row_document_id = document_id c,
                     row_chunk_text = chunk_text c, similarity = 1 - d\<rparr>)
       (take (nat match_count)
          (sort_key snd
             (filter (\<lambda>(c, d). 1 - d > match_threshold)
                (List.map_filter
                   (\<lambda>c. case chunk_embedding c of
                          None \<Rightarrow> None
                        | Some e \<Rightarrow> Some (c, distance e query_embedding))
                   chunks))))"

section \<open>Query function: retrieval\<close>

text \<open>
  What the query function finds around it: the configuration, the answers of the
  authentication service, of the embedding endpoint (for the query) and of the chat
  endpoint (for its \<open>n\<close>-th request), the database, and for each of the three database
  calls of the retrieval the error it resolves with, if any.
\<close>

record 'e query_env =
  api_key :: "string option"
  configured :: bool
  auth_service :: "jsstring \<Rightarrow> string + (uuid option \<times> string option)"
  embedding_endpoint :: "jsval \<Rightarrow> 'e fetched"
  chat_endpoint :: "nat \<Rightarrow> jsstring \<Rightarrow> jsval \<Rightarrow> string fetched"
  store :: "'e database"
  distance_op :: "'e \<Rightarrow> 'e \<Rightarrow> real"
  documents_error :: "string option"
  search_error :: "string option"
  fallback_error :: "string option"

text \<open>
  \<open>.from('documents').select('id').eq('uploaded_by', userId).eq('processing_status',
  'completed')\<close>.
\<close>

definition completed_documents :: "document list \<Rightarrow> uuid \<Rightarrow> document list" where
  "completed_documents docs userId =
     filter (\<lambda>d. uploaded_by d = Some userId \<and> processing_status d = Some Completed) docs"

text \<open>\<open>documentIds.includes(chunk.document_id)\<close>, also the filter \<open>.in('document_id', documentIds)\<close>.\<close>

definition id_included :: "uuid list \<Rightarrow> uuid option \<Rightarrow> bool" where
  "id_included documentIds parent =
     (case parent of None \<Rightarrow> False | Some d \<Rightarrow> d \<in> set documentIds)"

definition fallbackTextSearch :: "'e query_env \<Rightarrow> uuid list \<Rightarrow> match_row list run" where
  "fallbackTextSearch env documentIds =
     (case fallback_error env of
        Some message \<Rightarrow> ([SelectChunks documentIds], Throw (FallbackSearchFailed message))
      | None \<Rightarrow>
          ([SelectChunks documentIds],
           Next (map (\<lambda>c. \<lparr>row_id = chunk_id c, row_document_id = document_id c,
                            row_chunk_text = chunk_text c, similarity = 0.5\<rparr>)
                   (take 5 (filter (\<lambda>c. id_included documentIds (document_id c))
                              (document_chunks (store env)))))))"

definition findRelevantChunks :: "'e query_env \<Rightarrow> 'e \<Rightarrow> uuid \<Rightarrow> match_row list run" where
  "findRelevantChunks env queryEmbedding userId =
     (case documents_error env of
        Some message \<Rightarrow> ([SelectDocuments userId], Throw (FetchDocumentsFailed message))
      | None \<Rightarrow>
          if completed_documents (documents (store env)) userId = []
          then ([SelectDocuments userId], Next [])
          else
            (case search_error env of
               Some message \<Rightarrow>
                 bindS ([SelectDocuments userId, RpcMatchDocuments,
                         Log Err ''Vector search failed''], Next ())
                   (\<lambda>_. fallbackTextSearch env
                           (map doc_id (completed_documents (documents (store env)) userId)))
             | None \<Rightarrow>
                 if match_documents (distance_op env) (document_chunks (store env)) queryEmbedding
                      0.1 5 = []
                 then bindS ([SelectDocuments userId, RpcMatchDocuments], Next ())
                   (\<lambda>_. fallbackTextSearch env
                           (map doc_id (completed_documents (documents (store env)) userId)))
                 else
                   ([SelectDocuments userId, RpcMatchDocuments],
                    Next (filter
                      (\<lambda>chunk. id_included
                         (map doc_id (completed_documents (documents (store env)) userId))
                         (row_document_id chunk))
                      (match_documents (distance_op env) (document_chunks (store env))
                         queryEmbedding 0.1 5)))))"

section \<open>Query function: \<open>generateQueryEmbedding\<close> and \<open>generateChatResponse\<close>\<close>

definition generateQueryEmbedding :: "'e query_env \<Rightarrow> jsval \<Rightarrow> 'e run" where
  "generateQueryEmbedding env query =
     (if key_missing (api_key env) then ([], Throw MissingApiKey)
      else
        (case embedding_endpoint env query of
           Inl message \<Rightarrow> ([QueryEmbeddingRequest query], Throw (Thrown message))
         | Inr response \<Rightarrow>
             if \<not> ok response
             then
               (case body_text response of
                  Inl message \<Rightarrow> ([QueryEmbeddingRequest query], Throw (Thrown message))
                | Inr errorText \<Rightarrow>
                    ([QueryEmbeddingRequest query,
                      Log Err ''Failed to generate query embedding''],
                     Throw (QueryEmbeddingFailed (status response))))
             else
               (case body_data response of
                  Inl message \<Rightarrow> ([QueryEmbeddingRequest query], Throw (Thrown message))
                | Inr embedding \<Rightarrow> ([QueryEmbeddingRequest query], Next embedding))))"

text \<open>\<open>array.join(sep)\<close>.\<close>

fun js_join :: "jsstring \<Rightarrow> jsstring list \<Rightarrow> jsstring" where
  "js_join sep [] = []"
| "js_join sep [w] = w"
| "js_join sep (w # v # ws) = w @ sep @ js_join sep (v # ws)"

definition systemMessage :: "match_row list \<Rightarrow> jsstring" where
  "systemMessage relevantChunks =
     js_of ''You are a helpful AI assistant that answers questions based on the provided context. Use the following context to answer the user's question. If the context doesn't contain enough information to fully answer the question, say so and provide what information you can.''
     @ [0x0A, 0x0A] @ js_of ''Context:'' @ [0x0A]
     @ js_join [0x0A, 0x0A] (map row_chunk_text relevantChunks)"

abbreviation maxAttempts :: nat where
  "maxAttempts \<equiv> 3"

text \<open>
  What one pass through the \<open>try\<close> block makes of the outcome of the request: the
  content of the answer, a rate limit (the status 429 is tested first, before any read of
  the body), or an error that the \<open>catch\<close> block receives (a rejected request, a status
  that is not ok, a body that cannot be read).
\<close>

datatype attempt_result = Answered string | RateLimited | Caught error

definition attempt_result :: "string fetched \<Rightarrow> attempt_result" where
  "attempt_result f =
     (case f of
        Inl message \<Rightarrow> Caught (Thrown message)
      | Inr response \<Rightarrow>
          if status response = 429 then RateLimited
          else if \<not> ok response
          then (case body_text response of
                  Inl message \<Rightarrow> Caught (Thrown message)
                | Inr errorText \<Rightarrow> Caught (GroqApiError (status response) errorText))
          else (case body_data response of
                  Inl message \<Rightarrow> Caught (Thrown message)
                | Inr content \<Rightarrow> Answered content))"

text \<open>
  The \<open>while (attempt < maxAttempts)\<close> loop.  Every pass sends one request and either
  returns or increments \<open>attempt\<close>, so \<open>attempt\<close> is also the number of requests sent
  before the pass.
\<close>

function chat_loop ::
  "(nat \<Rightarrow> jsstring \<Rightarrow> jsval \<Rightarrow> string fetched) \<Rightarrow> jsstring \<Rightarrow> jsval \<Rightarrow> nat \<Rightarrow> effect list \<Rightarrow>
   string run"
where
  "chat_loop chat system query attempt trace =
     (if attempt < maxAttempts then
        (case attempt_result (chat attempt system query) of
           Answered content \<Rightarrow> (trace @ [ChatRequest system query], Next content)
         | RateLimited \<Rightarrow>
             chat_loop chat system query (attempt + 1)
               (trace @ [ChatRequest system query, Log Warning ''Rate limited, retrying'',
                         Sleep (min (1000 * 2 ^ attempt) 60000)])
         | Caught e \<Rightarrow>
             if attempt + 1 \<ge> maxAttempts
             then (trace @ [ChatRequest system query,
                            Log Err ''Failed to generate chat response after retries''],
                   Throw e)
             else chat_loop chat system query (attempt + 1)
                    (trace @ [ChatRequest system query, Sleep (1000 * (attempt + 1))]))
      else (trace, Throw MaxAttempts))"
  by pat_completeness auto
termination
  by (relation "measure (\<lambda>(chat, system, query, attempt, trace). maxAttempts - attempt)") auto

definition generateChatResponse :: "'e query_env \<Rightarrow> jsval \<Rightarrow> match_row list \<Rightarrow> string run" where
  "generateChatResponse env query relevantChunks =
     (if key_missing (api_key env) then ([], Throw MissingApiKey)
      else chat_loop (chat_endpoint env) (systemMessage relevantChunks) query 0 [])"

section \<open>Query function: the handler\<close>

text \<open>
  A request as a handler reads it: the method, the outcome of \<open>await req.json()\<close>
  (\<open>Inl\<close> when it throws) and the \<open>Authorization\<close> header.
\<close>

record request =
  req_method :: string
  req_body :: "string + jsval"
  req_authorization :: "jsstring option"

definition no_information :: string where
  "no_information = ''I couldn't find any relevant information in your documents to answer this question. Please make sure you have uploaded documents and they have been processed.''"

text \<open>The \<open>try\<close> block of the handler.\<close>

definition query_try :: "'e query_env \<Rightarrow> request \<Rightarrow> reply run" where
  "query_try env req =
     bindS (lift (case req_body req of Inl message \<Rightarrow> Inl (Thrown message) | Inr v \<Rightarrow> Inr v)) (\<lambda>v.
     bindS (lift (get_prop ''query'' v)) (\<lambda>query.
     bindS (lift (get_prop ''userId'' v)) (\<lambda>userId.
       if \<not> truthy query \<or> \<not> truthy userId
       then ([], Reply (ErrorJson 400 ''Missing query or userId''))
       else
     bindS ([Log Info ''Processing chat query''], Next ()) (\<lambda>_.
     bindS (verify_session (configured env) (auth_service env) (req_authorization req) userId)
       (\<lambda>uid.
     bindS (generateQueryEmbedding env query) (\<lambda>queryEmbedding.
     bindS (findRelevantChunks env queryEmbedding uid) (\<lambda>relevantChunks.
       if length relevantChunks = 0
       then ([], Reply (AnswerJson 200 no_information []))
       else
     bindS (generateChatResponse env query relevantChunks) (\<lambda>answer.
       ([Log Info ''Chat query completed''],
        Reply (AnswerJson 200 answer
          (map (\<lambda>chunk. (row_id chunk, similarity chunk)) relevantChunks)))))))))))"

text \<open>
  The handler, with the effects it performed.  A value left by the \<open>try\<close> block cannot
  occur: the block always returns or throws.
\<close>

definition handle_query :: "'e query_env \<Rightarrow> request \<Rightarrow> reply \<times> effect list" where
  "handle_query env req =
     (if req_method req \<noteq> ''POST'' then (PlainText 405 ''Method not allowed'', [])
      else
        (case query_try env req of
           (tr, Reply r) \<Rightarrow> (r, tr)
         | (tr, Next r) \<Rightarrow> (r, tr)
         | (tr, Throw e) \<Rightarrow>
             (ErrorJson 500 ''Failed to process query. Please try again.'',
              tr @ [Log Err ''Chat query failed''])))"

text \<open>The requests sent to the chat endpoint among the effects.\<close>

fun is_chat_request :: "effect \<Rightarrow> bool" where
  "is_chat_request (ChatRequest system query) = True"
| "is_chat_request e = False"

text \<open>
  The effects of one pass of the retry loop of \<open>generateChatResponse\<close>, as the retry
  policy states them: the request, then after a rate limit the wait of
  \<open>min(1000 * 2^attempt, 60000)\<close> ms, after any other error the wait of
  \<open>1000 * (attempt + 1)\<close> ms (the counter has been incremented by then) unless the
  attempts are exhausted.
\<close>

definition attempt_events ::
  "(nat \<Rightarrow> jsstring \<Rightarrow> jsval \<Rightarrow> string fetched) \<Rightarrow> jsstring \<Rightarrow> jsval \<Rightarrow> nat \<Rightarrow> effect list"
where
  "attempt_events chat system query attempt =
     ChatRequest system query #
     (case attempt_result (chat attempt system query) of
        Answered content \<Rightarrow> []
      | RateLimited \<Rightarrow>
          [Log Warning ''Rate limited, retrying'', Sleep (min (1000 * 2 ^ attempt) 60000)]
      | Caught e \<Rightarrow>
          if attempt + 1 \<ge> maxAttempts
          then [Log Err ''Failed to generate chat response after retries'']
          else [Sleep (1000 * (attempt + 1))])"

section \<open>A small world to run the query function in\<close>

text \<open>
  Alice has a completed document with one chunk and a document still in processing, Bob
  a completed document with one chunk, Carol no document.  Embeddings are numbers and
  the distance of two of them is their difference; the query embeds to 0.  The
  authentication service takes the token for the id of the user.
\<close>

definition demo_db :: "real database" where
  "demo_db =
     \<lparr>documents =
        [\<lparr>doc_id = js_of ''d1'', doc_name = ''a.txt'', uploaded_by = Some (js_of ''alice''),
          file_path = ''alice/a.txt'', processing_status = Some Completed\<rparr>,
         \<lparr>doc_id = js_of ''d2'', doc_name = ''b.txt'', uploaded_by = Some (js_of ''bob''),
          file_path = ''bob/b.txt'', processing_status = Some Completed\<rparr>,
         \<lparr>doc_id = js_of ''d3'', doc_name = ''c.txt'', uploaded_by = Some (js_of ''alice''),
          file_path = ''alice/c.txt'', processing_status = Some Processing\<rparr>],
      document_chunks =
        [\<lparr>chunk_id = js_of ''c1'', document_id = Some (js_of ''d1''),
          chunk_text = js_of ''Cats are mammals'', chunk_embedding = Some 1, chunk_index = 0\<rparr>,
         \<lparr>chunk_id = js_of ''c2'', document_id = Some (js_of ''d2''),
          chunk_text = js_of ''Dogs are mammals too'', chunk_embedding = Some 0.2,
          chunk_index = 0\<rparr>,
         \<lparr>chunk_id = js_of ''c3'', document_id = Some (js_of ''d3''),
          chunk_text = js_of ''Fish are not mammals'', chunk_embedding = Some 0.1,
          chunk_index = 0\<rparr>]\<rparr>"

definition demo_env :: "real query_env" where
  "demo_env =
     \<lparr>api_key = Some ''key'', configured = True,
      auth_service = (\<lambda>token. Inr (Some token, None)),
      embedding_endpoint = (\<lambda>query. Inr (Response 200 (Inr []) (Inr 0))),
      chat_endpoint = (\<lambda>n system query. Inr (Response 200 (Inr []) (Inr ''Yes.''))),
      store = demo_db,
      distance_op = (\<lambda>a b. \<bar>a - b\<bar>),
      documents_error = None, search_error = None, fallback_error = None\<rparr>"

definition demo_request :: "string \<Rightarrow> request" where
  "demo_request user =
     \<lparr>req_method = ''POST'',
      req_body = Inr (Obj [(''query'', Str (js_of ''Are cats mammals?'')),
                           (''userId'', Str (js_of user))]),
      req_authorization = Some (js_of ''Bearer '' @ js_of user)\<rparr>"

text \<open>
  The value the handler finds for a property of the request body: \<open>undefined\<close> when
  the body cannot be parsed or the property cannot be read.
\<close>

definition field :: "string \<Rightarrow> request \<Rightarrow> jsval" where
  "field k req =
     (case req_body req of
        Inl message \<Rightarrow> Undefined
      | Inr v \<Rightarrow> (case get_prop k v of Inl e \<Rightarrow> Undefined | Inr x \<Rightarrow> x))"

text \<open>No request was sent to the chat endpoint.\<close>

definition no_chat :: "effect list \<Rightarrow> bool" where
  "no_chat tr \<longleftrightarrow> filter is_chat_request tr = []"

text \<open>The responses of the query handler that come before the answer synthesis.\<close>

definition short_reply :: "reply \<Rightarrow> bool" where
  "short_reply r \<longleftrightarrow>
     r = ErrorJson 400 ''Missing query or userId'' \<or>
     r = ErrorJson 401 ''Missing authorization'' \<or> r = ErrorJson 401 ''Unauthorized'' \<or>
     r = AnswerJson 200 no_information []"

text \<open>
  A second world: Alice has a completed document whose one chunk is close to the query
  (similarity 0.9), and Bob a completed document with five chunks that are closer still
  (similarity 0.95).
\<close>

definition crowded_db :: "real database" where
  "crowded_db =
     \<lparr>documents =
        [\<lparr>doc_id = js_of ''d1'', doc_name = ''a.txt'', uploaded_by = Some (js_of ''alice''),
          file_path = ''alice/a.txt'', processing_status = Some Completed\<rparr>,
         \<lparr>doc_id = js_of ''d2'', doc_name = ''b.txt'', uploaded_by = Some (js_of ''bob''),
          file_path = ''bob/b.txt'', processing_status = Some Completed\<rparr>],
      document_chunks =
        \<lparr>chunk_id = js_of ''a1'', document_id = Some (js_of ''d1''),
          chunk_text = js_of ''Cats are mammals'', chunk_embedding = Some 0.1,
          chunk_index = 0\<rparr> #
        map (\<lambda>n. \<lparr>chunk_id = js_of (''b'' @ [n]), document_id = Some (js_of ''d2''),
                    chunk_text = js_of ''Dogs are mammals too'', chunk_embedding = Some 0.05,
                    chunk_index = 0\<rparr>)
          ''12345''\<rparr>"

definition crowded_env :: "real query_env" where
  "crowded_env = demo_env\<lparr>store := crowded_db\<rparr>"

section \<open>Ingestion function\<close>

text \<open>
  What a write of \<open>processing_status\<close> comes to: the query resolves without an error,
  resolves with an error (which the handler never reads), or throws.
\<close>

datatype write_outcome = WriteDone | WriteRefused string | WriteThrows string

text \<open>
  What the ingestion function finds around it.  \<open>status_write s\<close> is the outcome of
  writing the status \<open>s\<close>; \<open>storage_download path\<close> is the error and the data that
  the download resolves with, the data being the file as the text that
  \<open>TextDecoder\<close> gives for it; \<open>lower_case\<close> is \<open>String.prototype.toLowerCase\<close>.
\<close>

record 'v ingest_env =
  ingest_api_key :: "string option"
  ingest_configured :: bool
  ingest_auth_service :: "jsstring \<Rightarrow> string + (uuid option \<times> string option)"
  status_write :: "string \<Rightarrow> write_outcome"
  storage_download :: "jsval \<Rightarrow> string option \<times> jsstring option"
  embedding_service :: "nat \<Rightarrow> jsstring list \<Rightarrow> 'v list fetched"
  insert_error :: "string option"
  lower_case :: "jsstring \<Rightarrow> jsstring"

text \<open>
  \<open>extractTextFromFile\<close>.  \<open>String.prototype.toLowerCase\<close> is the runtime's and is a
  parameter, \<open>to_lower\<close>.  Calling it on a file name that is not a string throws.
  \<open>split('.')\<close> never gives an empty array, so \<open>pop()\<close> is its last piece.
\<close>

definition extractTextFromFile ::
  "(jsstring \<Rightarrow> jsstring) \<Rightarrow> jsstring \<Rightarrow> jsval \<Rightarrow> jsstring run"
where
  "extractTextFromFile to_lower fileText fileName =
     (case fileName of
        Str name \<Rightarrow>
          if last (split_on 0x2E [] (to_lower name)) = js_of ''txt''
          then ([], Next fileText)
          else if last (split_on 0x2E [] (to_lower name)) = js_of ''pdf''
          then ([Log Warning ''PDF parsing not implemented, using placeholder text''],
                Next (js_of ''PDF content would be extracted here using a PDF parsing library.''))
          else if last (split_on 0x2E [] (to_lower name)) = js_of ''docx''
          then ([Log Warning ''DOCX parsing not implemented, using placeholder text''],
                Next (js_of ''DOCX content would be extracted here using a DOCX parsing library.''))
          else ([], Throw (UnsupportedFileType (last (split_on 0x2E [] (to_lower name)))))
      | _ \<Rightarrow> ([], Throw (Thrown ''TypeError'')))"

abbreviation CHUNK_SIZE :: int where
  "CHUNK_SIZE \<equiv> 500"

abbreviation CHUNK_OVERLAP :: int where
  "CHUNK_OVERLAP \<equiv> 50"

text \<open>An awaited write of the status inside the \<open>try\<close> block.\<close>

definition update_status :: "'v ingest_env \<Rightarrow> jsval \<Rightarrow> string \<Rightarrow> unit run" where
  "update_status env documentId s =
     (case status_write env s of
        WriteThrows message \<Rightarrow> ([UpdateStatus documentId s], Throw (Thrown message))
      | _ \<Rightarrow> ([UpdateStatus documentId s], Next ()))"

definition download :: "'v ingest_env \<Rightarrow> jsval \<Rightarrow> jsstring run" where
  "download env filePath =
     (case storage_download env filePath of
        (Some message, _) \<Rightarrow>
          ([Download filePath],
           Throw (DownloadFailed (if message = [] then ''File not found'' else message)))
      | (None, None) \<Rightarrow> ([Download filePath], Throw (DownloadFailed ''File not found''))
      | (None, Some fileText) \<Rightarrow> ([Download filePath], Next fileText))"

text \<open>
  The \<open>try\<close> block up to the chunks: the request is read, the session verified, the
  status set to \<open>processing\<close>, the file downloaded, its text extracted and split.
\<close>

definition ingest_prepare :: "'v ingest_env \<Rightarrow> request \<Rightarrow> (jsval \<times> jsstring list) run" where
  "ingest_prepare env req =
     bindS (lift (case req_body req of Inl message \<Rightarrow> Inl (Thrown message) | Inr v \<Rightarrow> Inr v))
       (\<lambda>requestData.
     bindS (lift (get_prop ''filePath'' requestData)) (\<lambda>filePath.
     bindS (lift (get_prop ''fileName'' requestData)) (\<lambda>fileName.
     bindS (lift (get_prop ''userId'' requestData)) (\<lambda>userId.
     bindS (lift (get_prop ''documentId'' requestData)) (\<lambda>documentId.
     bindS ([Log Info ''Starting document processing''], Next ()) (\<lambda>_.
     bindS (verify_session (ingest_configured env) (ingest_auth_service env)
              (req_authorization req) userId) (\<lambda>uid.
     bindS (update_status env documentId ''processing'') (\<lambda>_.
     bindS (download env filePath) (\<lambda>fileText.
     bindS (extractTextFromFile (lower_case env) fileText fileName) (\<lambda>textContent.
       if textContent = [] \<or> length (trim textContent) = 0
       then ([], Throw NoTextContent)
       else if length (splitTextIntoChunks textContent CHUNK_SIZE CHUNK_OVERLAP) = 0
       then ([], Throw NoChunks)
       else ([Log Info ''Text extracted and chunked''],
             Next (documentId,
                   splitTextIntoChunks textContent CHUNK_SIZE CHUNK_OVERLAP))))))))))))"

text \<open>The \<open>try\<close> block after the embeddings: the chunk records are stored.\<close>

definition ingest_store :: "'v ingest_env \<Rightarrow> jsval \<Rightarrow> jsstring list \<Rightarrow> reply run" where
  "ingest_store env documentId chunks =
     bindS (case insert_error env of
              Some message \<Rightarrow> ([InsertChunks (length chunks)], Throw (StoreChunksFailed message))
            | None \<Rightarrow> ([InsertChunks (length chunks)], Next ())) (\<lambda>_.
     bindS (update_status env documentId ''completed'') (\<lambda>_.
       ([Log Info ''Document processing completed''],
        Reply (IngestDone 200 documentId (length chunks)))))"

text \<open>
  The whole \<open>try\<close> block.  The embedding of the chunks may retry for ever, and then
  the block does not end.
\<close>

definition ingest_try :: "'v ingest_env \<Rightarrow> request \<Rightarrow> reply run option" where
  "ingest_try env req =
     (case ingest_prepare env req of
        (tr, Next (documentId, chunks)) \<Rightarrow>
          (case generateEmbeddingsForChunks (ingest_api_key env) (embedding_service env) chunks of
             None \<Rightarrow> None
           | Some (Inl e, tr') \<Rightarrow> Some (tr @ tr', Throw e)
           | Some (Inr embeddings, tr') \<Rightarrow>
               Some (bindS (tr @ tr', Next ()) (\<lambda>_. ingest_store env documentId chunks)))
      | (tr, Reply r) \<Rightarrow> Some (tr, Reply r)
      | (tr, Throw e) \<Rightarrow> Some (tr, Throw e))"

text \<open>
  The effects of the \<open>catch\<close> block.  \<open>requestData\<close> is \<open>{}\<close> when the body could
  not be parsed.  What its inner \<open>try\<close> throws (reading \<open>documentId\<close>, creating the
  client, the write) is logged by its inner \<open>catch\<close>.
\<close>

definition ingest_catch :: "'v ingest_env \<Rightarrow> request \<Rightarrow> effect list" where
  "ingest_catch env req =
     Log Err ''Document processing failed'' #
     (case get_prop ''documentId''
             (case req_body req of Inl message \<Rightarrow> Obj [] | Inr v \<Rightarrow> v) of
        Inl e \<Rightarrow> [Log Err ''Failed to update document status to error'']
      | Inr documentId \<Rightarrow>
          if truthy documentId then
            if \<not> ingest_configured env
            then [Log Err ''Failed to update document status to error'']
            else
              (case status_write env ''error'' of
                 WriteThrows message \<Rightarrow>
                   [UpdateStatus documentId ''error'',
                    Log Err ''Failed to update document status to error'']
               | _ \<Rightarrow> [UpdateStatus documentId ''error''])
          else [])"

definition handle_ingest :: "'v ingest_env \<Rightarrow> request \<Rightarrow> (reply \<times> effect list) option" where
  "handle_ingest env req =
     (if req_method req \<noteq> ''POST'' then Some (PlainText 405 ''Method not allowed'', [])
      else
        (case ingest_try env req of
           None \<Rightarrow> None
         | Some (tr, Reply r) \<Rightarrow> Some (r, tr)
         | Some (tr, Next r) \<Rightarrow> Some (r, tr)
         | Some (tr, Throw e) \<Rightarrow> Some (IngestFailed 500 e, tr @ ingest_catch env req)))"

text \<open>
  A world to run the ingestion in: the download of any file fails, and the file names are
  lowered on the letters A to Z.
\<close>

definition ascii_lower :: "jsstring \<Rightarrow> jsstring" where
  "ascii_lower s = map (\<lambda>c. if 0x41 \<le> c \<and> c \<le> 0x5A then c + 0x20 else c) s"

definition demo_ingest_env :: "nat ingest_env" where
  "demo_ingest_env =
     \<lparr>ingest_api_key = Some ''key'', ingest_configured = True,
      ingest_auth_service = (\<lambda>token. Inr (Some token, None)),
      status_write = (\<lambda>s. WriteDone),
      storage_download = (\<lambda>path. (Some ''Object not found'', None)),
      embedding_service = length_service,
      insert_error = None,
      lower_case = ascii_lower\<rparr>"

definition demo_upload :: "(string \<times> jsval) list \<Rightarrow> request" where
  "demo_upload extra =
     \<lparr>req_method = ''POST'',
      req_body = Inr (Obj ([(''filePath'', Str (js_of ''alice/a.txt'')),
                            (''fileName'', Str (js_of ''a.txt'')),
                            (''userId'', Str (js_of ''alice''))] @ extra)),
      req_authorization = Some (js_of ''Bearer alice'')\<rparr>"

section \<open>Properties of the chunker\<close>

lemma dropWhile_rev_dropWhile:
  "dropWhile P (rev (dropWhile P (rev (dropWhile P s)))) = rev (dropWhile P (rev (dropWhile P s)))"
proof -
  let ?d = "dropWhile P s"
  let ?u = "dropWhile P (rev ?d)"
  show ?thesis
  proof (cases "?u = []")
    case True
    show ?thesis unfolding True by simp
  next
    case False
    have split: "rev ?d = takeWhile P (rev ?d) @ ?u" by simp
    have "last ?u = last (rev ?d)"
      using False split by (metis last_appendR)
    moreover have ne: "?d \<noteq> []"
    proof
      assume "?d = []"
      then have "?u = []" by (simp only: rev.simps dropWhile.simps)
      with False show False ..
    qed
    ultimately have "last ?u = hd ?d" by (simp only: last_rev)
    moreover have "\<not> P (hd ?d)" using ne by (rule hd_dropWhile)
    ultimately have "\<not> P (hd (rev ?u))" using False by (simp add: hd_rev)
    then show ?thesis using False by (cases "rev ?u") auto
  qed
qed

lemma trim_idem: "trim (trim s) = trim s"
  unfolding trim_def by (simp add: dropWhile_rev_dropWhile)

lemma length_trim_le: "length (trim s) \<le> length s"
  unfolding trim_def
  by (metis length_rev length_dropWhile_le le_trans)

lemma trim_all_ws:
  assumes "\<forall>c\<in>set s. is_ws c"
  shows "trim s = []"
proof -
  have h: "dropWhile is_ws s = []" using assms by simp
  show ?thesis unfolding trim_def h by simp
qed

lemma chunk_loop_skip:
  "trim s = [] \<Longrightarrow>
   chunk_loop cs ov (chunks, cur) (s # ss) = chunk_loop cs ov (chunks, cur) ss"
  by simp

lemma chunk_loop_close:
  "trim s \<noteq> [] \<Longrightarrow> int (length cur) + int (length (trim s)) > cs \<Longrightarrow> cur \<noteq> [] \<Longrightarrow>
   chunk_loop cs ov (chunks, cur) (s # ss) =
   chunk_loop cs ov (chunks @ [trim cur], overlap_seed ov cur @ space # trim s) ss"
  by (simp add: Let_def)

lemma chunk_loop_append:
  "trim s \<noteq> [] \<Longrightarrow> \<not> int (length cur) + int (length (trim s)) > cs \<or> cur = [] \<Longrightarrow>
   chunk_loop cs ov (chunks, cur) (s # ss) =
   chunk_loop cs ov (chunks, cur @ space # trim s) ss"
  by (auto simp add: Let_def)

lemma chunk_loop_cases:
  obtains (skip) "trim s = []"
  | (close) "trim s \<noteq> []" "int (length cur) + int (length (trim s)) > cs" "cur \<noteq> []"
  | (append) "trim s \<noteq> []" "\<not> int (length cur) + int (length (trim s)) > cs \<or> cur = []"
  by blast

lemma split_terminal_set:
  "p \<in> set (split_terminal cur s) \<Longrightarrow> set p \<subseteq> set cur \<union> set s"
proof (induction cur s rule: split_terminal.induct)
  case (1 cur) then show ?case by simp
next
  case (2 cur c cs)
  show ?case
  proof (cases "is_terminal c")
    case True
    with 2 show ?thesis using set_dropWhileD[of _ is_terminal cs] by auto
  next
    case False
    with 2 show ?thesis by auto
  qed
qed

lemma sentences_of_ws: "\<forall>c\<in>set text. is_ws c \<Longrightarrow> sentences_of text = []"
  unfolding sentences_of_def
  by (auto simp: filter_empty_conv dest!: split_terminal_set intro!: trim_all_ws)

lemma chunk_loop_trimmed:
  "chunk_loop cs ov (chunks, cur) ss = (chunks', cur') \<Longrightarrow>
   \<forall>c\<in>set chunks. trim c = c \<Longrightarrow> \<forall>c\<in>set chunks'. trim c = c"
proof (induction ss arbitrary: chunks cur)
  case Nil then show ?case by simp
next
  case (Cons s ss)
  show ?case
  proof (cases rule: chunk_loop_cases[where s=s and cur=cur and cs=cs])
    case skip
    with Cons show ?thesis by (metis chunk_loop_skip)
  next
    case close
    have "chunk_loop cs ov (chunks @ [trim cur], overlap_seed ov cur @ space # trim s) ss = (chunks', cur')"
      using Cons.prems(1) chunk_loop_close[OF close] by metis
    moreover have "\<forall>c\<in>set (chunks @ [trim cur]). trim c = c"
      using Cons.prems(2) by (auto simp: trim_idem)
    ultimately show ?thesis by (rule Cons.IH)
  next
    case append
    have "chunk_loop cs ov (chunks, cur @ space # trim s) ss = (chunks', cur')"
      using Cons.prems(1) chunk_loop_append[OF append] by metis
    then show ?thesis using Cons.prems(2) by (rule Cons.IH)
  qed
qed

lemma pushed_chunks_trimmed: "c \<in> set (pushed_chunks text cs ov) \<Longrightarrow> trim c = c"
proof -
  assume a: "c \<in> set (pushed_chunks text cs ov)"
  obtain chunks cur where r: "chunk_loop cs ov ([], []) (sentences_of text) = (chunks, cur)"
    by (cases "chunk_loop cs ov ([], []) (sentences_of text)")
  have "\<forall>c\<in>set chunks. trim c = c"
    using chunk_loop_trimmed[OF r] by simp
  then show ?thesis using a r by (auto simp: pushed_chunks_def trim_idem split: if_splits)
qed

text \<open>
  C9.  Every chunk returned by \<open>splitTextIntoChunks\<close> is a non-empty string whose
  trimmed length is strictly greater than the floor of 10 characters; the result is exactly
  the pushed chunks that are not at or below the floor; and for an empty or whitespace-only
  text the result is the empty sequence.
\<close>

theorem splitTextIntoChunks_floor:
  "(\<forall>chunk \<in> set (splitTextIntoChunks text chunkSize overlap).
      chunk \<noteq> [] \<and> length (trim chunk) > 10) \<and>
   splitTextIntoChunks text chunkSize overlap =
     filter (\<lambda>chunk. \<not> length (trim chunk) \<le> 10) (pushed_chunks text chunkSize overlap) \<and>
   ((\<forall>c \<in> set text. is_ws c) \<longrightarrow> splitTextIntoChunks text chunkSize overlap = [])"
proof (intro conjI impI)
  show "\<forall>chunk \<in> set (splitTextIntoChunks text chunkSize overlap).
      chunk \<noteq> [] \<and> length (trim chunk) > 10"
    by (auto simp: splitTextIntoChunks_def pushed_chunks_trimmed)
  show "splitTextIntoChunks text chunkSize overlap =
     filter (\<lambda>chunk. \<not> length (trim chunk) \<le> 10) (pushed_chunks text chunkSize overlap)"
    unfolding splitTextIntoChunks_def
    by (rule filter_cong) (auto simp: pushed_chunks_trimmed)
next
  assume "\<forall>c \<in> set text. is_ws c"
  then have "sentences_of text = []" by (rule sentences_of_ws)
  then show "splitTextIntoChunks text chunkSize overlap = []"
    by (simp add: splitTextIntoChunks_def pushed_chunks_def trim_def)
qed

theorem splitTextIntoChunks_floor_witness:
  "list_all is_ws (js_of ''   '') \<and>
   splitTextIntoChunks (js_of ''   '') 500 50 = [] \<and>
   splitTextIntoChunks
     (js_of ''Cats are mammals. Dogs are mammals too. Fish are not mammals.'') 20 5 =
     [js_of ''Cats are mammals'', js_of ''mammals Dogs are mammals too'',
      js_of ''too Fish are not mammals''] \<and>
   10 < length (trim (js_of ''Cats are mammals''))"
proof -
  have ws: "list_all is_ws (js_of ''   '')"
    by code_simp
  have empty: "splitTextIntoChunks (js_of ''   '') 500 50 = []"
    using splitTextIntoChunks_floor [of "js_of ''   ''" 500 50] ws
    unfolding list_all_iff by blast
  have cats: "splitTextIntoChunks
     (js_of ''Cats are mammals. Dogs are mammals too. Fish are not mammals.'') 20 5 =
     [js_of ''Cats are mammals'', js_of ''mammals Dogs are mammals too'',
      js_of ''too Fish are not mammals'']"
    by code_simp
  have "10 < length (trim (js_of ''Cats are mammals''))"
    using splitTextIntoChunks_floor
      [of "js_of ''Cats are mammals. Dogs are mammals too. Fish are not mammals.''" 20 5]
    unfolding cats by simp
  with ws empty cats show ?thesis by blast
qed

lemma seeded_mono: "seeded ov T P cur \<Longrightarrow> P \<subseteq> P' \<Longrightarrow> seeded ov T P' cur"
  unfolding seeded_def by blast

lemma chunk_loop_bound:
  assumes "chunk_loop cs ov (chunks, cur) ss = (chunks', cur')"
    and "trim ` set ss \<subseteq> T"
    and "\<forall>c\<in>set chunks. int (length c) \<le> cs + 1 \<or> (\<exists>b. c = trim b \<and> seeded ov T (set chunks) b)"
    and "cur = [] \<or> int (length cur) \<le> cs + 1 \<or> seeded ov T (set chunks) cur"
  shows "(\<forall>c\<in>set chunks'. int (length c) \<le> cs + 1 \<or> (\<exists>b. c = trim b \<and> seeded ov T (set chunks') b))
     \<and> (cur' = [] \<or> int (length cur') \<le> cs + 1 \<or> seeded ov T (set chunks') cur')"
  using assms
proof (induction ss arbitrary: chunks cur)
  case Nil then show ?case by simp
next
  case (Cons s ss)
  have T: "trim s \<in> T" "trim ` set ss \<subseteq> T" using Cons.prems(2) by auto
  show ?case
  proof (cases rule: chunk_loop_cases[where s=s and cur=cur and cs=cs])
    case skip
    with Cons.prems(1) have "chunk_loop cs ov (chunks, cur) ss = (chunks', cur')"
      by (metis chunk_loop_skip)
    then show ?thesis using T(2) Cons.prems(3,4) by (rule Cons.IH)
  next
    case close
    let ?chunks = "chunks @ [trim cur]"
    let ?cur = "overlap_seed ov cur @ space # trim s"
    have run: "chunk_loop cs ov (?chunks, ?cur) ss = (chunks', cur')"
      using Cons.prems(1) chunk_loop_close[OF close] by metis
    have sub: "set chunks \<subseteq> set ?chunks" by auto
    have new: "int (length (trim cur)) \<le> cs + 1 \<or> (\<exists>b. trim cur = trim b \<and> seeded ov T (set ?chunks) b)"
    proof -
      from Cons.prems(4) close(3)
      consider "int (length cur) \<le> cs + 1" | "seeded ov T (set chunks) cur" by blast
      then show ?thesis
      proof cases
        case 1
        then show ?thesis using length_trim_le[of cur] by linarith
      next
        case 2
        then show ?thesis using seeded_mono[OF _ sub] by blast
      qed
    qed
    have old: "\<forall>c\<in>set chunks. int (length c) \<le> cs + 1 \<or> (\<exists>b. c = trim b \<and> seeded ov T (set ?chunks) b)"
      using Cons.prems(3) seeded_mono[OF _ sub] by blast
    have c3: "\<forall>c\<in>set ?chunks. int (length c) \<le> cs + 1 \<or> (\<exists>b. c = trim b \<and> seeded ov T (set ?chunks) b)"
      using old new by auto
    have "seeded ov T (set ?chunks) ?cur"
      unfolding seeded_def using T(1) by auto
    then have c4: "?cur = [] \<or> int (length ?cur) \<le> cs + 1 \<or> seeded ov T (set ?chunks) ?cur"
      by blast
    show ?thesis using run T(2) c3 c4 by (rule Cons.IH)
  next
    case append
    let ?cur = "cur @ space # trim s"
    have run: "chunk_loop cs ov (chunks, ?cur) ss = (chunks', cur')"
      using Cons.prems(1) chunk_loop_append[OF append] by metis
    have c4: "?cur = [] \<or> int (length ?cur) \<le> cs + 1 \<or> seeded ov T (set chunks) ?cur"
    proof (cases "cur = []")
      case True
      then have "seeded ov T (set chunks) ?cur" unfolding seeded_def using T(1) by auto
      then show ?thesis by blast
    next
      case False
      with append(2) have "int (length cur) + int (length (trim s)) \<le> cs" by auto
      then have "int (length ?cur) \<le> cs + 1" by simp
      then show ?thesis by blast
    qed
    show ?thesis using run T(2) Cons.prems(3) c4 by (rule Cons.IH)
  qed
qed


lemma pushed_chunks_bound:
  assumes "c \<in> set (pushed_chunks text cs ov)"
  shows "int (length c) \<le> cs + 1 \<or>
     (\<exists>b. c = trim b \<and>
        seeded ov (trim ` set (sentences_of text)) (set (pushed_chunks text cs ov)) b)"
proof -
  let ?T = "trim ` set (sentences_of text)"
  obtain chunks cur where r: "chunk_loop cs ov ([], []) (sentences_of text) = (chunks, cur)"
    by (cases "chunk_loop cs ov ([], []) (sentences_of text)")
  have inv: "(\<forall>c\<in>set chunks. int (length c) \<le> cs + 1 \<or> (\<exists>b. c = trim b \<and> seeded ov ?T (set chunks) b))
     \<and> (cur = [] \<or> int (length cur) \<le> cs + 1 \<or> seeded ov ?T (set chunks) cur)"
    by (rule chunk_loop_bound[OF r]) simp_all
  have sub: "set chunks \<subseteq> set (pushed_chunks text cs ov)"
    using r by (auto simp: pushed_chunks_def)
  show ?thesis
  proof (cases "c \<in> set chunks")
    case True
    with inv seeded_mono[OF _ sub] show ?thesis by blast
  next
    case False
    with assms r have c: "c = trim cur" and ne: "trim cur \<noteq> []"
      by (auto simp: pushed_chunks_def split: if_splits)
    have "cur \<noteq> []" using ne by (auto simp: trim_def)
    with inv consider "int (length cur) \<le> cs + 1" | "seeded ov ?T (set chunks) cur" by blast
    then show ?thesis
    proof cases
      case 1
      then have "int (length c) \<le> cs + 1" using length_trim_le[of cur] c by simp
      then show ?thesis ..
    next
      case 2
      then show ?thesis using seeded_mono[OF _ sub] c by blast
    qed
  qed
qed

text \<open>
  C8 (amended).  Every chunk returned by \<open>splitTextIntoChunks\<close> has at most
  \<open>chunkSize + 1\<close> characters, unless it is a freshly started buffer: one single
  sentence, after nothing or after the overlap seed taken from a buffer that was closed
  before.  The buffer is closed as soon as appending the next sentence would exceed
  \<open>chunkSize\<close> while the buffer is non-empty.
\<close>

theorem splitTextIntoChunks_size_bound:
  "(\<forall>chunk \<in> set (splitTextIntoChunks text chunkSize overlap).
      int (length chunk) \<le> chunkSize + 1 \<or>
      (\<exists>sentence \<in> set (sentences_of text). \<exists>seed.
         chunk = trim (seed @ space # trim sentence) \<and>
         (seed = [] \<or>
          (\<exists>closed. trim closed \<in> set (pushed_chunks text chunkSize overlap) \<and>
             seed = overlap_seed overlap closed)))) \<and>
   (\<forall>chunks currentChunk sentence rest.
      trim sentence \<noteq> [] \<and> currentChunk \<noteq> [] \<and>
      int (length currentChunk) + int (length (trim sentence)) > chunkSize \<longrightarrow>
      chunk_loop chunkSize overlap (chunks, currentChunk) (sentence # rest) =
      chunk_loop chunkSize overlap
        (chunks @ [trim currentChunk],
         overlap_seed overlap currentChunk @ space # trim sentence) rest)"
proof (intro conjI ballI allI impI)
  fix chunk
  assume "chunk \<in> set (splitTextIntoChunks text chunkSize overlap)"
  then have "chunk \<in> set (pushed_chunks text chunkSize overlap)"
    by (simp add: splitTextIntoChunks_def)
  from pushed_chunks_bound[OF this]
  show "int (length chunk) \<le> chunkSize + 1 \<or>
      (\<exists>sentence \<in> set (sentences_of text). \<exists>seed.
         chunk = trim (seed @ space # trim sentence) \<and>
         (seed = [] \<or>
          (\<exists>closed. trim closed \<in> set (pushed_chunks text chunkSize overlap) \<and>
             seed = overlap_seed overlap closed)))"
    unfolding seeded_def by blast
next
  fix chunks :: "jsstring list" and currentChunk sentence :: jsstring
    and rest :: "jsstring list"
  assume "trim sentence \<noteq> [] \<and> currentChunk \<noteq> [] \<and>
      int (length currentChunk) + int (length (trim sentence)) > chunkSize"
  then show "chunk_loop chunkSize overlap (chunks, currentChunk) (sentence # rest) =
      chunk_loop chunkSize overlap
        (chunks @ [trim currentChunk],
         overlap_seed overlap currentChunk @ space # trim sentence) rest"
    by (simp add: chunk_loop_close)
qed

theorem splitTextIntoChunks_size_bound_witness:
  "js_of ''mammals Dogs are mammals too'' \<in> set (splitTextIntoChunks
      (js_of ''Cats are mammals. Dogs are mammals too. Fish are not mammals.'') 20 5) \<and>
   \<not> int (length (js_of ''mammals Dogs are mammals too'')) \<le> 20 + 1 \<and>
   (\<exists>sentence \<in> set (sentences_of
        (js_of ''Cats are mammals. Dogs are mammals too. Fish are not mammals.'')). \<exists>seed.
      js_of ''mammals Dogs are mammals too'' = trim (seed @ space # trim sentence) \<and>
      (seed = [] \<or>
       (\<exists>closed. trim closed \<in> set (pushed_chunks
            (js_of ''Cats are mammals. Dogs are mammals too. Fish are not mammals.'') 20 5) \<and>
          seed = overlap_seed 5 closed))) \<and>
   trim (js_of '' Dogs are mammals too'') \<noteq> [] \<and> js_of '' Cats are mammals'' \<noteq> [] \<and>
   int (length (js_of '' Cats are mammals'')) + int (length (trim (js_of '' Dogs are mammals too''))) > 20 \<and>
   chunk_loop 20 5 ([], js_of '' Cats are mammals'') [js_of '' Dogs are mammals too''] =
     ([js_of ''Cats are mammals''], js_of ''mammals Dogs are mammals too'')"
proof -
  let ?text = "js_of ''Cats are mammals. Dogs are mammals too. Fish are not mammals.''"
  let ?c = "js_of ''mammals Dogs are mammals too''"
  note inst = splitTextIntoChunks_size_bound [of ?text 20 5]
  have m: "?c \<in> set (splitTextIntoChunks ?text 20 5)"
    by code_simp
  have big: "\<not> int (length ?c) \<le> 20 + 1"
    by code_simp
  have a: "trim (js_of '' Dogs are mammals too'') \<noteq> []" by code_simp
  have b: "js_of '' Cats are mammals'' \<noteq> []" by code_simp
  have c: "int (length (js_of '' Cats are mammals'')) + int (length (trim (js_of '' Dogs are mammals too''))) > 20"
    by code_simp
  have step: "chunk_loop 20 5 ([], js_of '' Cats are mammals'') [js_of '' Dogs are mammals too''] =
      chunk_loop 20 5 ([] @ [trim (js_of '' Cats are mammals'')],
         overlap_seed 5 (js_of '' Cats are mammals'') @ space # trim (js_of '' Dogs are mammals too'')) []"
    using inst a b c by blast
  have ev: "chunk_loop 20 5 ([] @ [trim (js_of '' Cats are mammals'')],
         overlap_seed 5 (js_of '' Cats are mammals'') @ space # trim (js_of '' Dogs are mammals too'')) [] =
     ([js_of ''Cats are mammals''], js_of ''mammals Dogs are mammals too'')"
    by code_simp
  from inst m big have "\<exists>sentence \<in> set (sentences_of ?text). \<exists>seed.
      ?c = trim (seed @ space # trim sentence) \<and>
      (seed = [] \<or>
       (\<exists>closed. trim closed \<in> set (pushed_chunks ?text 20 5) \<and>
          seed = overlap_seed 5 closed))"
    by blast
  with m big a b c step ev show ?thesis by (simp only: simp_thms)
qed

text \<open>
  The bound of the claim as it was stated fails: with \<open>chunkSize = 20\<close> and the
  default overlap of 50, three sentences of 15 characters give a third chunk of 47
  characters, more than \<open>chunkSize\<close> plus a sentence, and no sentence is longer than
  \<open>chunkSize\<close>.
\<close>

theorem splitTextIntoChunks_size_bound_counterexample:
  "sentences_of (js_of ''aaaaaaaaaaaaaaa.bbbbbbbbbbbbbbb.ccccccccccccccc.'') =
     [js_of ''aaaaaaaaaaaaaaa'', js_of ''bbbbbbbbbbbbbbb'', js_of ''ccccccccccccccc''] \<and>
   splitTextIntoChunks (js_of ''aaaaaaaaaaaaaaa.bbbbbbbbbbbbbbb.ccccccccccccccc.'') 20 50 =
     [js_of ''aaaaaaaaaaaaaaa'', js_of ''aaaaaaaaaaaaaaa bbbbbbbbbbbbbbb'',
      js_of ''aaaaaaaaaaaaaaa bbbbbbbbbbbbbbb ccccccccccccccc''] \<and>
   length (js_of ''aaaaaaaaaaaaaaa'') = 15 \<and>
   int (length (js_of ''aaaaaaaaaaaaaaa bbbbbbbbbbbbbbb ccccccccccccccc'')) > 20 + 15"
  by code_simp

section \<open>Properties of the embedding client\<close>

lemma slice_batch:
  assumes "0 \<le> i" and "i < int (length xs)"
  shows "js_slice_range i (i + batchSize) xs = take 10 (drop (nat i) xs)"
proof (cases "i + 10 \<le> int (length xs)")
  case True
  have "nat (i + 10 - i) = 10" by simp
  with True assms show ?thesis
    by (simp add: js_slice_range_def Let_def min_def)
next
  case False
  then have "length (drop (nat i) xs) \<le> 10" using assms by simp
  then have "take 10 (drop (nat i) xs) = drop (nat i) xs" by simp
  moreover have "take (nat (int (length xs) - i)) (drop (nat i) xs) = drop (nat i) xs"
    using assms by simp
  ultimately show ?thesis using False assms
    by (simp add: js_slice_range_def Let_def min_def)
qed

lemma take_next_batch:
  "0 \<le> i \<Longrightarrow> take (nat (i + batchSize)) xs = take (nat i) xs @ take 10 (drop (nat i) xs)"
  by (simp add: nat_add_distrib take_add)

lemma requests_append: "requests (a @ b) = requests a @ requests b"
  by (induction a rule: requests.induct) simp_all

lemma embed_loop_aligned:
  fixes svc :: "nat \<Rightarrow> jsstring list \<Rightarrow> 'v list fetched"
    and R :: "jsstring \<Rightarrow> 'v \<Rightarrow> bool"
  assumes run: "embed_loop svc chunks i embeddings calls trace = Some y"
  shows "aligned_service R svc \<longrightarrow> 0 \<le> i \<longrightarrow>
     list_all2 R (take (nat i) chunks) embeddings \<longrightarrow>
     list_all (\<lambda>b. length b \<le> 10) (requests trace) \<longrightarrow>
     (\<forall>vs tr. y = (Inr vs, tr) \<longrightarrow>
        list_all2 R chunks vs \<and> list_all (\<lambda>b. length b \<le> 10) (requests tr))"
proof (rule embed_loop.raw_induct
    [where P = "\<lambda>svc chunks i embeddings calls trace y.
       aligned_service R svc \<longrightarrow> 0 \<le> i \<longrightarrow>
       list_all2 R (take (nat i) chunks) embeddings \<longrightarrow>
       list_all (\<lambda>b. length b \<le> 10) (requests trace) \<longrightarrow>
       (\<forall>vs tr. y = (Inr vs, tr) \<longrightarrow>
          list_all2 R chunks vs \<and> list_all (\<lambda>b. length b \<le> 10) (requests tr))",
     OF _ run], goal_cases)
  case (1 loop svc chunks i embeddings calls trace y)
  let ?batch = "js_slice_range i (i + batchSize) chunks"
  show ?case
  proof (intro impI allI)
    fix vs tr
    assume svc: "aligned_service R svc" and i0: "0 \<le> i"
      and al: "list_all2 R (take (nat i) chunks) embeddings"
      and rq: "list_all (\<lambda>b. length b \<le> 10) (requests trace)"
      and y: "y = (Inr vs, tr)"
    show "list_all2 R chunks vs \<and> list_all (\<lambda>b. length b \<le> 10) (requests tr)"
    proof (cases "i < int (length chunks)")
      case False
      with 1(2) y have "vs = embeddings" "tr = trace" by simp_all
      moreover have "take (nat i) chunks = chunks" using False by simp
      ultimately show ?thesis using al rq by simp
    next
      case True
      have batch: "?batch = take 10 (drop (nat i) chunks)"
        using i0 True by (rule slice_batch)
      have blen: "length ?batch \<le> 10" unfolding batch by simp
      show ?thesis
      proof (cases "svc calls ?batch")
        case (Inl m)
        with 1(2) True y show ?thesis by simp
      next
        case (Inr r)
        show ?thesis
        proof (cases "ok r")
          case nok: False
          show ?thesis
          proof (cases "body_text r")
            case (Inl m)
            with 1(2) True Inr nok y show ?thesis by simp
          next
            case readable: (Inr errorText)
            show ?thesis
            proof (cases "status r = 429")
              case s: True
              let ?tr = "trace @ [EmbeddingRequest ?batch, Log Err ''Groq API error'', Sleep 2000]"
              have call:
                "loop svc chunks (i - batchSize + batchSize) embeddings (calls + 1) ?tr = Some y"
                using 1(2) True Inr nok readable s by simp
              have "list_all (\<lambda>b. length b \<le> 10) (requests ?tr)"
                using rq blen by (simp add: requests_append)
              with 1(1)[OF call] svc i0 al y show ?thesis by simp
            next
              case False
              with 1(2) True Inr nok readable y show ?thesis by simp
            qed
          qed
        next
          case isok: True
          show ?thesis
          proof (cases "body_data r")
            case (Inl m)
            with 1(2) True Inr isok y show ?thesis by simp
          next
            case bs: (Inr bs)
            let ?tr = "trace @ [EmbeddingRequest ?batch] @
                         (if i + batchSize < int (length chunks) then [Sleep 500] else [])"
            have call: "loop svc chunks (i + batchSize) (embeddings @ bs) (calls + 1) ?tr = Some y"
              using 1(2) True Inr isok bs by simp
            have "list_all2 R ?batch bs"
              using svc Inr isok bs unfolding aligned_service_def by blast
            then have al': "list_all2 R (take (nat (i + batchSize)) chunks) (embeddings @ bs)"
              unfolding take_next_batch[OF i0] batch using al by (rule list_all2_appendI[rotated])
            have rq': "list_all (\<lambda>b. length b \<le> 10) (requests ?tr)"
              using rq blen by (simp add: requests_append)
            have "0 \<le> i + batchSize" using i0 by simp
            with 1(1)[OF call] svc al' rq' y show ?thesis by blast
          qed
        qed
      qed
    qed
  qed
qed

lemma embed_loop_exit:
  "\<not> i < int (length chunks) \<Longrightarrow>
   embed_loop svc chunks i embeddings calls trace = Some (Inr embeddings, trace)"
  by (subst embed_loop.simps) simp

lemma embed_loop_ok:
  "i < int (length chunks) \<Longrightarrow>
   svc calls (js_slice_range i (i + batchSize) chunks) = Inr r \<Longrightarrow> ok r \<Longrightarrow>
   body_data r = Inr bs \<Longrightarrow>
   embed_loop svc chunks i embeddings calls trace =
   embed_loop svc chunks (i + batchSize) (embeddings @ bs) (calls + 1)
     (trace @ [EmbeddingRequest (js_slice_range i (i + batchSize) chunks)] @
        (if i + batchSize < int (length chunks) then [Sleep 500] else []))"
  by (subst embed_loop.simps) simp

lemma embed_loop_retry:
  "i < int (length chunks) \<Longrightarrow>
   retryable (svc calls (js_slice_range i (i + batchSize) chunks)) \<Longrightarrow>
   embed_loop svc chunks i embeddings calls trace =
   embed_loop svc chunks i embeddings (calls + 1)
     (trace @ [EmbeddingRequest (js_slice_range i (i + batchSize) chunks),
               Log Err ''Groq API error'', Sleep 2000])"
  by (subst embed_loop.simps)
    (auto simp: retryable_def rate_limited_def body_read_def ok_def split: sum.splits)

lemma embed_loop_returns:
  fixes svc :: "nat \<Rightarrow> jsstring list \<Rightarrow> 'v list fetched"
  assumes "ok_from calls svc" and "0 \<le> i"
  shows "\<exists>vs tr. embed_loop svc chunks i embeddings calls trace = Some (Inr vs, tr) \<and>
           concat (requests tr) = concat (requests trace) @ drop (nat i) chunks \<and>
           take (length trace) tr = trace"
  using assms
proof (induction "nat (int (length chunks) - i)" arbitrary: i embeddings calls trace
    rule: less_induct)
  case less
  let ?batch = "js_slice_range i (i + batchSize) chunks"
  show ?case
  proof (cases "i < int (length chunks)")
    case False
    then have "drop (nat i) chunks = []" by simp
    moreover have "embed_loop svc chunks i embeddings calls trace = Some (Inr embeddings, trace)"
      using False by (rule embed_loop_exit)
    ultimately show ?thesis by simp
  next
    case True
    obtain r bs where r: "svc calls ?batch = Inr r" "ok r" "body_data r = Inr bs"
      using less.prems(1) unfolding ok_from_def by blast
    have ok': "ok_from (calls + 1) svc"
      using less.prems(1) unfolding ok_from_def by simp
    let ?tr = "trace @ [EmbeddingRequest ?batch] @
        (if i + batchSize < int (length chunks) then [Sleep 500] else [])"
    have step: "embed_loop svc chunks i embeddings calls trace =
        embed_loop svc chunks (i + batchSize) (embeddings @ bs) (calls + 1) ?tr"
      using True r by (rule embed_loop_ok)
    have m: "nat (int (length chunks) - (i + batchSize)) < nat (int (length chunks) - i)"
      using True by simp
    have i': "0 \<le> i + batchSize" using less.prems by simp
    obtain vs tr where res:
      "embed_loop svc chunks (i + batchSize) (embeddings @ bs) (calls + 1) ?tr = Some (Inr vs, tr)"
      "concat (requests tr) = concat (requests ?tr) @ drop (nat (i + batchSize)) chunks"
      "take (length ?tr) tr = ?tr"
      using less.hyps[OF m ok' i'] by blast
    have pre: "take (length trace) tr = trace"
    proof -
      have "take (length trace) (take (length ?tr) tr) = take (length trace) ?tr"
        by (simp only: res(3))
      then show ?thesis by (simp add: min_def)
    qed
    have batch: "?batch = take 10 (drop (nat i) chunks)"
      using less.prems(2) True by (rule slice_batch)
    have e: "nat (i + batchSize) = 10 + nat i" using less.prems by simp
    have "drop (nat (i + batchSize)) chunks = drop 10 (drop (nat i) chunks)"
      by (simp only: e drop_drop)
    then have whole: "?batch @ drop (nat (i + batchSize)) chunks = drop (nat i) chunks"
      by (simp only: batch append_take_drop_id)
    have "requests ?tr = requests trace @ [?batch]"
      by (simp add: requests_append)
    then have "concat (requests tr) =
        concat (requests trace) @ (?batch @ drop (nat (i + batchSize)) chunks)"
      using res(2) by simp
    then have "concat (requests tr) = concat (requests trace) @ drop (nat i) chunks"
      by (simp only: whole)
    with res(1) step pre show ?thesis by simp
  qed
qed

lemma embed_loop_retries:
  assumes "i < int (length chunks)"
    and "\<forall>j<k. retryable (svc (calls + j) (js_slice_range i (i + batchSize) chunks))"
  shows "embed_loop svc chunks i embeddings calls trace =
         embed_loop svc chunks i embeddings (calls + k)
           (trace @ concat (replicate k
              [EmbeddingRequest (js_slice_range i (i + batchSize) chunks),
               Log Err ''Groq API error'', Sleep 2000]))"
  using assms(2)
proof (induction k arbitrary: calls trace)
  case 0
  then show ?case by simp
next
  case (Suc k)
  let ?batch = "js_slice_range i (i + batchSize) chunks"
  let ?ev = "[EmbeddingRequest ?batch, Log Err ''Groq API error'', Sleep 2000]"
  have first: "retryable (svc calls ?batch)" using Suc.prems by force
  have rest: "\<forall>j<k. retryable (svc (calls + 1 + j) ?batch)"
    using Suc.prems by (metis Suc_less_eq add_Suc_right add_Suc_shift Suc_eq_plus1)
  have "embed_loop svc chunks i embeddings calls trace =
        embed_loop svc chunks i embeddings (calls + 1) (trace @ ?ev)"
    using assms(1) first by (rule embed_loop_retry)
  also have "\<dots> = embed_loop svc chunks i embeddings (calls + 1 + k)
           ((trace @ ?ev) @ concat (replicate k ?ev))"
    using rest by (rule Suc.IH)
  finally show ?case by (simp add: add.assoc)
qed

lemma embed_loop_never:
  fixes svc :: "nat \<Rightarrow> jsstring list \<Rightarrow> 'v list fetched"
  assumes always: "\<forall>n batch. retryable (svc n batch)"
    and i: "i < int (length chunks)"
  shows "embed_loop svc chunks i embeddings calls trace = None"
proof (cases "embed_loop svc chunks i embeddings calls trace")
  case None
  then show ?thesis .
next
  case (Some y)
  have "(\<forall>n batch. retryable (svc n batch)) \<longrightarrow> i < int (length chunks) \<longrightarrow> False"
  proof (rule embed_loop.raw_induct
      [where P = "\<lambda>svc chunks i embeddings calls trace y.
         (\<forall>n batch. retryable (svc n batch)) \<longrightarrow> i < int (length chunks) \<longrightarrow> False",
       OF _ Some], goal_cases)
    case (1 loop svc chunks i embeddings calls trace y)
    show ?case
    proof (intro impI)
      assume a: "\<forall>n batch. retryable (svc n batch)" and b: "i < int (length chunks)"
      let ?batch = "js_slice_range i (i + batchSize) chunks"
      have "retryable (svc calls ?batch)" using a by blast
      then obtain r t where r: "svc calls ?batch = Inr r" "status r = 429" "body_text r = Inr t"
        by (auto simp: retryable_def rate_limited_def body_read_def split: sum.splits)
      then have nok: "\<not> ok r" by (simp add: ok_def)
      have "loop svc chunks (i - batchSize + batchSize) embeddings (calls + 1)
          (trace @ [EmbeddingRequest ?batch, Log Err ''Groq API error'', Sleep 2000]) = Some y"
        using 1(2) b r nok by simp
      from 1(1)[OF this] a b show False by simp
    qed
  qed
  with always i show ?thesis by blast
qed

text \<open>
  C5.  When the embedding endpoint returns one vector per input text, aligned by index,
  \<open>generateEmbeddingsForChunks\<close> returns, whenever it returns vectors, exactly one vector
  per chunk, in the order of the chunks, and every request carries at most 10 texts.  When
  the endpoint answers every request with success (and the API key is set) it does return,
  and the requests are the successive batches of the chunk list.
\<close>

theorem generateEmbeddingsForChunks_order:
  fixes svc :: "nat \<Rightarrow> jsstring list \<Rightarrow> 'v list fetched"
  assumes "aligned_service R svc"
  shows "(generateEmbeddingsForChunks key svc chunks = Some (Inr vs, tr) \<longrightarrow>
            list_all2 R chunks vs \<and> length vs = length chunks \<and>
            list_all (\<lambda>batch. length batch \<le> 10) (requests tr)) \<and>
         (ok_from 0 svc \<and> \<not> key_missing key \<longrightarrow>
            (\<exists>vs tr. generateEmbeddingsForChunks key svc chunks = Some (Inr vs, tr) \<and>
               list_all2 R chunks vs \<and> length vs = length chunks \<and>
               concat (requests tr) = chunks \<and>
               list_all (\<lambda>batch. length batch \<le> 10) (requests tr)))"
proof -
  have part: "list_all2 R chunks vs \<and> length vs = length chunks \<and>
            list_all (\<lambda>batch. length batch \<le> 10) (requests tr)"
    if run: "generateEmbeddingsForChunks key svc chunks = Some (Inr vs, tr)" for vs tr
  proof -
    from run have loop: "embed_loop svc chunks 0 [] 0 [] = Some (Inr vs, tr)"
      by (simp add: generateEmbeddingsForChunks_def split: if_splits)
    have "list_all2 R chunks vs \<and> list_all (\<lambda>b. length b \<le> 10) (requests tr)"
      using embed_loop_aligned[OF loop, of R] assms by simp
    then show ?thesis by (auto dest: list_all2_lengthD)
  qed
  have total: "\<exists>vs tr. generateEmbeddingsForChunks key svc chunks = Some (Inr vs, tr) \<and>
               list_all2 R chunks vs \<and> length vs = length chunks \<and>
               concat (requests tr) = chunks \<and>
               list_all (\<lambda>batch. length batch \<le> 10) (requests tr)"
    if okf: "ok_from 0 svc" and key: "\<not> key_missing key"
  proof -
    obtain vs tr where r: "embed_loop svc chunks 0 [] 0 [] = Some (Inr vs, tr)"
      "concat (requests tr) = concat (requests []) @ drop (nat 0) chunks"
      using embed_loop_returns[OF okf, of 0 chunks "[]" "[]"] by auto
    then have g: "generateEmbeddingsForChunks key svc chunks = Some (Inr vs, tr)"
      using key by (simp add: generateEmbeddingsForChunks_def)
    from part[OF g] g r(2) show ?thesis by simp
  qed
  from part total show ?thesis by blast
qed

lemma aligned_length_service: "aligned_service (\<lambda>s v. v = length s) length_service"
  by (auto simp: aligned_service_def length_service_def list_all2_conv_all_nth)

theorem generateEmbeddingsForChunks_order_witness:
  "aligned_service (\<lambda>s v. v = length s) length_service \<and> ok_from 0 length_service \<and>
   \<not> key_missing (Some ''k'') \<and>
   generateEmbeddingsForChunks (Some ''k'') length_service
       (map js_of [''a'', ''bb'', ''c'', ''dd'', ''e'', ''ff'', ''g'', ''hh'', ''i'', ''jj'',
          ''kkk'', ''l'']) =
     Some (Inr [1, 2, 1, 2, 1, 2, 1, 2, 1, 2, 3, 1],
       [EmbeddingRequest
          (map js_of [''a'', ''bb'', ''c'', ''dd'', ''e'', ''ff'', ''g'', ''hh'', ''i'', ''jj'']),
        Sleep 500,
        EmbeddingRequest (map js_of [''kkk'', ''l''])]) \<and>
   list_all2 (\<lambda>s v. v = length s)
     (map js_of [''a'', ''bb'', ''c'', ''dd'', ''e'', ''ff'', ''g'', ''hh'', ''i'', ''jj'',
        ''kkk'', ''l''])
     [1, 2, 1, 2, 1, 2, 1, 2, 1, 2, 3, 1] \<and>
   length [1 :: nat, 2, 1, 2, 1, 2, 1, 2, 1, 2, 3, 1] =
     length (map js_of [''a'', ''bb'', ''c'', ''dd'', ''e'', ''ff'', ''g'', ''hh'', ''i'', ''jj'',
        ''kkk'', ''l'']) \<and>
   (\<exists>vs tr.
      generateEmbeddingsForChunks (Some ''k'') length_service
        (map js_of [''a'', ''bb'', ''c'', ''dd'', ''e'', ''ff'', ''g'', ''hh'', ''i'', ''jj'',
           ''kkk'', ''l'']) = Some (Inr vs, tr) \<and>
      concat (requests tr) =
        map js_of [''a'', ''bb'', ''c'', ''dd'', ''e'', ''ff'', ''g'', ''hh'', ''i'', ''jj'',
           ''kkk'', ''l''])"
proof -
  let ?chunks = "map js_of [''a'', ''bb'', ''c'', ''dd'', ''e'', ''ff'', ''g'', ''hh'', ''i'', ''jj'',
        ''kkk'', ''l'']"
  let ?vs = "[1 :: nat, 2, 1, 2, 1, 2, 1, 2, 1, 2, 3, 1]"
  let ?tr = "[EmbeddingRequest
          (map js_of [''a'', ''bb'', ''c'', ''dd'', ''e'', ''ff'', ''g'', ''hh'', ''i'', ''jj'']),
        Sleep 500,
        EmbeddingRequest (map js_of [''kkk'', ''l''])]"
  have al: "aligned_service (\<lambda>s v. v = length s) length_service"
    by (rule aligned_length_service)
  have okf: "ok_from 0 length_service"
    by (simp add: ok_from_def length_service_def ok_def)
  have key: "\<not> key_missing (Some ''k'')"
    by (simp add: key_missing_def)
  have run: "generateEmbeddingsForChunks (Some ''k'') length_service ?chunks = Some (Inr ?vs, ?tr)"
    by (simp add: generateEmbeddingsForChunks_def key_missing_def embed_loop.simps
        js_slice_range_def ok_def length_service_def js_of_def)
  note inst = generateEmbeddingsForChunks_order [OF al, of "Some ''k''" ?chunks ?vs ?tr]
  from inst run
  have part: "list_all2 (\<lambda>s v. v = length s) ?chunks ?vs \<and> length ?vs = length ?chunks"
    by blast
  from inst okf key
  have total: "\<exists>vs tr.
      generateEmbeddingsForChunks (Some ''k'') length_service ?chunks = Some (Inr vs, tr) \<and>
      concat (requests tr) = ?chunks"
    by blast
  from al okf key run part total show ?thesis by (simp only: simp_thms)
qed

text \<open>
  A 429 response whose body can be read neither drops the batch nor raises an error:
  after \<open>k\<close> such responses in a row, for any \<open>k\<close>, the loop is at the same index with the
  same collected vectors, having sent the same batch \<open>k\<close> times and waited 2000 ms after
  each; when the endpoint then answers with success the call returns the vector of every
  chunk; and when every response is such a 429 the call never returns and never raises.
\<close>

lemma generateEmbeddingsForChunks_retry:
  fixes svc :: "nat \<Rightarrow> jsstring list \<Rightarrow> 'v list fetched"
  shows "(i < int (length chunks) \<and>
          (\<forall>j<k. rate_limited (svc (calls + j) (js_slice_range i (i + batchSize) chunks)) \<and>
                 body_read (svc (calls + j) (js_slice_range i (i + batchSize) chunks))) \<longrightarrow>
          embed_loop svc chunks i embeddings calls trace =
          embed_loop svc chunks i embeddings (calls + k)
            (trace @ concat (replicate k
               [EmbeddingRequest (js_slice_range i (i + batchSize) chunks),
                Log Err ''Groq API error'', Sleep 2000]))) \<and>
         (chunks \<noteq> [] \<and> \<not> key_missing key \<and> aligned_service R svc \<and>
          (\<forall>j<k. rate_limited (svc j (js_slice_range 0 batchSize chunks)) \<and>
                 body_read (svc j (js_slice_range 0 batchSize chunks))) \<and>
          ok_from k svc \<longrightarrow>
          (\<exists>vs tr. generateEmbeddingsForChunks key svc chunks = Some (Inr vs, tr) \<and>
             list_all2 R chunks vs \<and>
             take (3 * k) tr = concat (replicate k
               [EmbeddingRequest (js_slice_range 0 batchSize chunks),
                Log Err ''Groq API error'', Sleep 2000]))) \<and>
         (chunks \<noteq> [] \<and> \<not> key_missing key \<and>
          (\<forall>n batch. rate_limited (svc n batch) \<and> body_read (svc n batch)) \<longrightarrow>
          generateEmbeddingsForChunks key svc chunks = None)"
proof (intro conjI impI)
  assume "i < int (length chunks) \<and>
          (\<forall>j<k. rate_limited (svc (calls + j) (js_slice_range i (i + batchSize) chunks)) \<and>
                 body_read (svc (calls + j) (js_slice_range i (i + batchSize) chunks)))"
  then have "i < int (length chunks)"
    and "\<forall>j<k. retryable (svc (calls + j) (js_slice_range i (i + batchSize) chunks))"
    by (simp_all add: retryable_def)
  then show "embed_loop svc chunks i embeddings calls trace =
          embed_loop svc chunks i embeddings (calls + k)
            (trace @ concat (replicate k
               [EmbeddingRequest (js_slice_range i (i + batchSize) chunks),
                Log Err ''Groq API error'', Sleep 2000]))"
    by (rule embed_loop_retries)
next
  assume a: "chunks \<noteq> [] \<and> \<not> key_missing key \<and> aligned_service R svc \<and>
          (\<forall>j<k. rate_limited (svc j (js_slice_range 0 batchSize chunks)) \<and>
                 body_read (svc j (js_slice_range 0 batchSize chunks))) \<and>
          ok_from k svc"
  let ?ev = "[EmbeddingRequest (js_slice_range 0 batchSize chunks),
                Log Err ''Groq API error'', Sleep 2000]"
  let ?pre = "concat (replicate k ?ev)"
  have len: "length ?pre = 3 * k" by (induction k) simp_all
  have i: "(0::int) < int (length chunks)" using a by simp
  have "\<forall>j<k. retryable (svc (0 + j) (js_slice_range 0 (0 + batchSize) chunks))"
    using a by (simp add: retryable_def)
  with i have "embed_loop svc chunks 0 [] 0 [] = embed_loop svc chunks 0 [] (0 + k) ([] @ ?pre)"
    using embed_loop_retries[of 0 chunks k svc 0 "[]" "[]"] by (simp del: replicate.simps)
  then have eq: "embed_loop svc chunks 0 [] 0 [] = embed_loop svc chunks 0 [] k ?pre" by simp
  have okf: "ok_from k svc" using a by simp
  obtain vs tr where r: "embed_loop svc chunks 0 [] k ?pre = Some (Inr vs, tr)"
    "take (length ?pre) tr = ?pre"
    using embed_loop_returns[OF okf, of 0 chunks "[]" ?pre] by auto
  have loop: "embed_loop svc chunks 0 [] 0 [] = Some (Inr vs, tr)" using eq r(1) by simp
  then have g: "generateEmbeddingsForChunks key svc chunks = Some (Inr vs, tr)"
    using a by (simp add: generateEmbeddingsForChunks_def)
  have "list_all2 R chunks vs"
    using embed_loop_aligned[OF loop, of R] a by simp
  with g r(2) len show "\<exists>vs tr. generateEmbeddingsForChunks key svc chunks = Some (Inr vs, tr) \<and>
             list_all2 R chunks vs \<and> take (3 * k) tr = ?pre"
    by metis
next
  assume a: "chunks \<noteq> [] \<and> \<not> key_missing key \<and>
          (\<forall>n batch. rate_limited (svc n batch) \<and> body_read (svc n batch))"
  then have "(0::int) < int (length chunks)" by simp
  moreover have "\<forall>n batch. retryable (svc n batch)" using a by (simp add: retryable_def)
  ultimately have "embed_loop svc chunks 0 [] 0 [] = None"
    using embed_loop_never[of svc 0 chunks "[]" 0 "[]"] by blast
  with a show "generateEmbeddingsForChunks key svc chunks = None"
    by (simp add: generateEmbeddingsForChunks_def)
qed

lemma generateEmbeddingsForChunks_retry_run:
  "[js_of ''hello'', js_of ''hi''] \<noteq> [] \<and> \<not> key_missing (Some ''k'') \<and>
   aligned_service (\<lambda>s v. v = length s) (busy_service 3) \<and>
   rate_limited (busy_service 3 0 (js_slice_range 0 batchSize [js_of ''hello'', js_of ''hi''])) \<and>
   body_read (busy_service 3 0 (js_slice_range 0 batchSize [js_of ''hello'', js_of ''hi''])) \<and>
   rate_limited (busy_service 3 1 (js_slice_range 0 batchSize [js_of ''hello'', js_of ''hi''])) \<and>
   body_read (busy_service 3 1 (js_slice_range 0 batchSize [js_of ''hello'', js_of ''hi''])) \<and>
   rate_limited (busy_service 3 2 (js_slice_range 0 batchSize [js_of ''hello'', js_of ''hi''])) \<and>
   body_read (busy_service 3 2 (js_slice_range 0 batchSize [js_of ''hello'', js_of ''hi''])) \<and>
   ok_from 3 (busy_service 3) \<and>
   generateEmbeddingsForChunks (Some ''k'') (busy_service 3) [js_of ''hello'', js_of ''hi''] =
     Some (Inr [5, 2],
       [EmbeddingRequest [js_of ''hello'', js_of ''hi''], Log Err ''Groq API error'', Sleep 2000,
        EmbeddingRequest [js_of ''hello'', js_of ''hi''], Log Err ''Groq API error'', Sleep 2000,
        EmbeddingRequest [js_of ''hello'', js_of ''hi''], Log Err ''Groq API error'', Sleep 2000,
        EmbeddingRequest [js_of ''hello'', js_of ''hi'']]) \<and>
   embed_loop (busy_service 3) [js_of ''hello'', js_of ''hi''] 0 [] 0 [] =
   embed_loop (busy_service 3) [js_of ''hello'', js_of ''hi''] 0 [] 3
     (concat (replicate 3
        [EmbeddingRequest (js_slice_range 0 batchSize [js_of ''hello'', js_of ''hi'']),
         Log Err ''Groq API error'', Sleep 2000])) \<and>
   (\<exists>vs tr.
      generateEmbeddingsForChunks (Some ''k'') (busy_service 3) [js_of ''hello'', js_of ''hi''] =
        Some (Inr vs, tr) \<and>
      list_all2 (\<lambda>s v. v = length s) [js_of ''hello'', js_of ''hi''] vs) \<and>
   rate_limited (jammed_service 7 [js_of ''hello'']) \<and>
   body_read (jammed_service 7 [js_of ''hello'']) \<and>
   generateEmbeddingsForChunks (Some ''k'') jammed_service [js_of ''hello'', js_of ''hi''] = None"
proof -
  let ?chunks = "[js_of ''hello'', js_of ''hi'']"
  let ?batch = "js_slice_range 0 batchSize ?chunks"
  note inst = generateEmbeddingsForChunks_retry
    [where svc = "busy_service 3" and chunks = ?chunks and i = 0 and k = 3 and calls = 0
       and embeddings = "[]" and trace = "[]" and key = "Some ''k''"
       and R = "\<lambda>s v. v = length s"]
  note jam = generateEmbeddingsForChunks_retry
    [where svc = jammed_service and chunks = ?chunks and key = "Some ''k''"]
  have ne: "?chunks \<noteq> []" by simp
  have key: "\<not> key_missing (Some ''k'')" by (simp add: key_missing_def)
  have al: "aligned_service (\<lambda>s v. v = length s) (busy_service 3)"
    by (auto simp: aligned_service_def busy_service_def list_all2_conv_all_nth split: if_splits)
  have rl: "rate_limited (busy_service 3 j b)" if "j < 3" for j b
    using that by (simp add: rate_limited_def busy_service_def)
  have br: "body_read (busy_service 3 j b)" if "j < 3" for j b
    using that by (simp add: body_read_def busy_service_def)
  have okf: "ok_from 3 (busy_service 3)"
    by (simp add: ok_from_def busy_service_def ok_def)
  have all: "\<forall>j<3. rate_limited (busy_service 3 (0 + j) (js_slice_range 0 (0 + batchSize) ?chunks)) \<and>
                   body_read (busy_service 3 (0 + j) (js_slice_range 0 (0 + batchSize) ?chunks))"
    using rl br by simp
  have i: "(0::int) < int (length ?chunks)" by simp
  have eq: "embed_loop (busy_service 3) ?chunks 0 [] 0 [] =
      embed_loop (busy_service 3) ?chunks 0 [] 3
        (concat (replicate 3 [EmbeddingRequest ?batch, Log Err ''Groq API error'', Sleep 2000]))"
    using inst i all by (simp del: replicate.simps concat.simps)
  have run: "generateEmbeddingsForChunks (Some ''k'') (busy_service 3) ?chunks =
     Some (Inr [5, 2],
       [EmbeddingRequest ?chunks, Log Err ''Groq API error'', Sleep 2000,
        EmbeddingRequest ?chunks, Log Err ''Groq API error'', Sleep 2000,
        EmbeddingRequest ?chunks, Log Err ''Groq API error'', Sleep 2000,
        EmbeddingRequest ?chunks])"
    by (simp add: generateEmbeddingsForChunks_def key_missing_def embed_loop.simps
        js_slice_range_def ok_def busy_service_def js_of_def)
  have "\<forall>j<3. rate_limited (busy_service 3 j (js_slice_range 0 batchSize ?chunks)) \<and>
              body_read (busy_service 3 j (js_slice_range 0 batchSize ?chunks))"
    using rl br by simp
  with inst ne key al okf
  have after: "\<exists>vs tr.
      generateEmbeddingsForChunks (Some ''k'') (busy_service 3) ?chunks = Some (Inr vs, tr) \<and>
      list_all2 (\<lambda>s v. v = length s) ?chunks vs"
    by blast
  have jr: "rate_limited (jammed_service n b)" for n b
    by (simp add: rate_limited_def jammed_service_def)
  have jb: "body_read (jammed_service n b)" for n b
    by (simp add: body_read_def jammed_service_def)
  have never: "generateEmbeddingsForChunks (Some ''k'') jammed_service ?chunks = None"
    using jam ne key jr jb by blast
  from ne key al rl[of 0] br[of 0] rl[of 1] br[of 1] rl[of 2] br[of 2] okf run eq after jr jb never
  show ?thesis
    by (simp only: simp_thms)
qed

text \<open>
  C6.  A 429 response whose body cannot be read raises an error and the batch is not sent
  again: inside the \<open>try\<close> block the body of a response that is not ok is read as text
  before its status is tested, so the failure of that read is caught, logged and thrown
  again.  \<open>generateChatResponse\<close> tests the status first and takes the same response
  for a rate limit.
\<close>

theorem embedding_unreadable_rate_limit:
  "rate_limited (torn_service 0 [js_of ''hello world'']) \<and>
   \<not> key_missing (Some ''k'') \<and>
   generateEmbeddingsForChunks (Some ''k'') torn_service [js_of ''hello world''] =
     Some (Inl (Thrown ''terminated''),
       [EmbeddingRequest [js_of ''hello world''],
        Log Err ''Failed to generate embeddings for batch'']) \<and>
   attempt_result (Inr (Response 429 (Inl ''terminated'') (Inl []))) = RateLimited"
  by (simp add: generateEmbeddingsForChunks_def key_missing_def embed_loop.simps
      js_slice_range_def ok_def torn_service_def rate_limited_def js_of_def
      attempt_result_def)

section \<open>Properties of the answer synthesizer\<close>

lemma chat_requests_attempt_events:
  "length (filter is_chat_request (attempt_events chat system query a)) = 1"
  by (simp add: attempt_events_def split: attempt_result.splits)

lemma chat_requests_concat:
  "length (filter is_chat_request (concat (map (attempt_events chat system query) as))) = length as"
  by (induction as) (simp_all add: chat_requests_attempt_events)

lemma chat_loop_run:
  "attempt < maxAttempts \<Longrightarrow>
   \<exists>n. attempt < n \<and> n \<le> maxAttempts \<and>
       fst (chat_loop chat system query attempt trace) =
         trace @ concat (map (attempt_events chat system query) [attempt..<n]) \<and>
       (\<forall>a. attempt \<le> a \<and> a + 1 < n \<longrightarrow>
          attempt_result (chat a system query) = RateLimited \<or>
          (\<exists>e. attempt_result (chat a system query) = Caught e)) \<and>
       ((\<exists>content. attempt_result (chat (n - 1) system query) = Answered content \<and>
           snd (chat_loop chat system query attempt trace) = Next content) \<or>
        (n = maxAttempts \<and> attempt_result (chat (n - 1) system query) = RateLimited \<and>
           snd (chat_loop chat system query attempt trace) = Throw MaxAttempts) \<or>
        (n = maxAttempts \<and>
           (\<exists>e. attempt_result (chat (n - 1) system query) = Caught e \<and>
              snd (chat_loop chat system query attempt trace) = Throw e)))"
proof (induction chat system query attempt trace rule: chat_loop.induct)
  case (1 chat system query attempt trace)
  let ?res = "\<lambda>a. attempt_result (chat a system query)"
  let ?ev = "attempt_events chat system query"
  note lt = "1.prems"
  have one: "[attempt..<Suc attempt] = [attempt]" by simp
  show ?case
  proof (cases "?res attempt")
    case (Answered content)
    have "chat_loop chat system query attempt trace =
        (trace @ concat (map ?ev [attempt..<Suc attempt]), Next content)"
      using lt Answered by (simp add: chat_loop.simps attempt_events_def)
    then show ?thesis using lt Answered by (intro exI[of _ "Suc attempt"]) auto
  next
    case RateLimited
    let ?tr = "trace @ [ChatRequest system query, Log Warning ''Rate limited, retrying'',
                         Sleep (min (1000 * 2 ^ attempt) 60000)]"
    have step: "chat_loop chat system query attempt trace =
        chat_loop chat system query (attempt + 1) ?tr"
      using lt RateLimited by (simp add: chat_loop.simps)
    have ev: "?tr = trace @ ?ev attempt"
      using RateLimited by (simp add: attempt_events_def)
    show ?thesis
    proof (cases "attempt + 1 < maxAttempts")
      case False
      then have last: "attempt = 2" using lt by simp
      have "chat_loop chat system query (attempt + 1) ?tr = (?tr, Throw MaxAttempts)"
        using False by (simp add: chat_loop.simps)
      then have "chat_loop chat system query attempt trace =
          (trace @ concat (map ?ev [attempt..<Suc attempt]), Throw MaxAttempts)"
        using step ev by simp
      then show ?thesis using last RateLimited by (intro exI[of _ "Suc attempt"]) auto
    next
      case True
      obtain n where n: "attempt + 1 < n" "n \<le> maxAttempts"
        "fst (chat_loop chat system query (attempt + 1) ?tr) =
           ?tr @ concat (map ?ev [attempt + 1..<n])"
        "\<forall>a. attempt + 1 \<le> a \<and> a + 1 < n \<longrightarrow>
            ?res a = RateLimited \<or> (\<exists>e. ?res a = Caught e)"
        "(\<exists>content. ?res (n - 1) = Answered content \<and>
             snd (chat_loop chat system query (attempt + 1) ?tr) = Next content) \<or>
         (n = maxAttempts \<and> ?res (n - 1) = RateLimited \<and>
             snd (chat_loop chat system query (attempt + 1) ?tr) = Throw MaxAttempts) \<or>
         (n = maxAttempts \<and>
           (\<exists>e. ?res (n - 1) = Caught e \<and>
              snd (chat_loop chat system query (attempt + 1) ?tr) = Throw e))"
        using "1.IH"(1)[OF lt RateLimited True] by blast
      have upt: "[attempt..<n] = attempt # [attempt + 1..<n]"
        using n(1) by (simp add: upt_conv_Cons)
      have tr: "fst (chat_loop chat system query attempt trace) =
          trace @ concat (map ?ev [attempt..<n])"
        using step n(3) ev upt by simp
      have before: "\<forall>a. attempt \<le> a \<and> a + 1 < n \<longrightarrow>
            ?res a = RateLimited \<or> (\<exists>e. ?res a = Caught e)"
      proof (intro allI impI)
        fix a assume a: "attempt \<le> a \<and> a + 1 < n"
        show "?res a = RateLimited \<or> (\<exists>e. ?res a = Caught e)"
        proof (cases "a = attempt")
          case True
          then show ?thesis using RateLimited by simp
        next
          case False
          then have "attempt + 1 \<le> a \<and> a + 1 < n" using a by simp
          then show ?thesis using n(4) by blast
        qed
      qed
      from n(1) n(2) tr before n(5) show ?thesis
        unfolding step by (intro exI[of _ n]) simp
    qed
  next
    case (Caught e)
    show ?thesis
    proof (cases "attempt + 1 \<ge> maxAttempts")
      case last: True
      then have a2: "attempt = 2" using lt by simp
      have "chat_loop chat system query attempt trace =
          (trace @ concat (map ?ev [attempt..<Suc attempt]), Throw e)"
        using lt Caught last by (simp add: chat_loop.simps attempt_events_def)
      then show ?thesis using a2 Caught by (intro exI[of _ "Suc attempt"]) auto
    next
      case more: False
      let ?tr = "trace @ [ChatRequest system query, Sleep (1000 * (attempt + 1))]"
      have step: "chat_loop chat system query attempt trace =
          chat_loop chat system query (attempt + 1) ?tr"
        using lt Caught more by (simp add: chat_loop.simps)
      have ev: "?tr = trace @ ?ev attempt"
        using Caught more by (simp add: attempt_events_def)
      have next_lt: "attempt + 1 < maxAttempts" using more by simp
      obtain n where n: "attempt + 1 < n" "n \<le> maxAttempts"
        "fst (chat_loop chat system query (attempt + 1) ?tr) =
           ?tr @ concat (map ?ev [attempt + 1..<n])"
        "\<forall>a. attempt + 1 \<le> a \<and> a + 1 < n \<longrightarrow>
            ?res a = RateLimited \<or> (\<exists>e. ?res a = Caught e)"
        "(\<exists>content. ?res (n - 1) = Answered content \<and>
             snd (chat_loop chat system query (attempt + 1) ?tr) = Next content) \<or>
         (n = maxAttempts \<and> ?res (n - 1) = RateLimited \<and>
             snd (chat_loop chat system query (attempt + 1) ?tr) = Throw MaxAttempts) \<or>
         (n = maxAttempts \<and>
           (\<exists>e. ?res (n - 1) = Caught e \<and>
              snd (chat_loop chat system query (attempt + 1) ?tr) = Throw e))"
        using "1.IH"(2)[OF lt Caught more next_lt] by blast
      have upt: "[attempt..<n] = attempt # [attempt + 1..<n]"
        using n(1) by (simp add: upt_conv_Cons)
      have tr: "fst (chat_loop chat system query attempt trace) =
          trace @ concat (map ?ev [attempt..<n])"
        using step n(3) ev upt by simp
      have before: "\<forall>a. attempt \<le> a \<and> a + 1 < n \<longrightarrow>
            ?res a = RateLimited \<or> (\<exists>e. ?res a = Caught e)"
      proof (intro allI impI)
        fix a assume a: "attempt \<le> a \<and> a + 1 < n"
        show "?res a = RateLimited \<or> (\<exists>e. ?res a = Caught e)"
        proof (cases "a = attempt")
          case True
          then show ?thesis using Caught by simp
        next
          case False
          then have "attempt + 1 \<le> a \<and> a + 1 < n" using a by simp
          then show ?thesis using n(4) by blast
        qed
      qed
      from n(1) n(2) tr before n(5) show ?thesis
        unfolding step by (intro exI[of _ n]) simp
    qed
  qed
qed


lemma chat_loop_rate_limited:
  assumes "\<forall>a<maxAttempts. attempt_result (chat a system query) = RateLimited"
  shows "chat_loop chat system query 0 [] =
     ([ChatRequest system query, Log Warning ''Rate limited, retrying'', Sleep 1000,
       ChatRequest system query, Log Warning ''Rate limited, retrying'', Sleep 2000,
       ChatRequest system query, Log Warning ''Rate limited, retrying'', Sleep 4000],
      Throw MaxAttempts)"
proof -
  have r: "attempt_result (chat 0 system query) = RateLimited"
    "attempt_result (chat 1 system query) = RateLimited"
    "attempt_result (chat 2 system query) = RateLimited"
    using assms by simp_all
  show ?thesis
    using r by (simp add: numeral_2_eq_2)
qed

text \<open>
  C3.  With the API key set, \<open>generateChatResponse\<close> sends \<open>n\<close> requests to the chat
  endpoint, \<open>1 \<le> n \<le> 3\<close>, whatever the endpoint answers, and its effects are those of
  the passes \<open>0, ..., n - 1\<close> of the loop.  Every pass \<open>a\<close> before the last ended
  either in a 429 response, after which the function logged the warning and waited
  \<open>min (1000 * 2 ^ a) 60000\<close> ms, or in another error, after which it waited
  \<open>1000 * (a + 1)\<close> ms (the counter is incremented before the wait); in both cases pass
  \<open>a + 1\<close> then sent the next request, so the one counter serves both kinds of retry.
  The last pass either received the answer, which is returned, or is the third: after a
  429 the function waits 4000 ms and throws the error of the exhausted attempts, after
  another error it logs the failure and throws that error again.  A call that is always
  rate limited waits 1 s, 2 s and 4 s after its three requests and then fails.  Without
  the API key the function throws before any request.
\<close>

theorem generateChatResponse_retry_bound:
  "(key_missing (api_key env) \<longrightarrow>
      generateChatResponse env query relevantChunks = ([], Throw MissingApiKey)) \<and>
   (\<not> key_missing (api_key env) \<longrightarrow>
      (\<exists>n. 1 \<le> n \<and> n \<le> maxAttempts \<and>
         fst (generateChatResponse env query relevantChunks) =
           concat (map (attempt_events (chat_endpoint env) (systemMessage relevantChunks) query)
             [0..<n]) \<and>
         length (filter is_chat_request (fst (generateChatResponse env query relevantChunks))) = n \<and>
         (\<forall>a. a + 1 < n \<longrightarrow>
            (attempt_result (chat_endpoint env a (systemMessage relevantChunks) query) =
               RateLimited \<and>
             attempt_events (chat_endpoint env) (systemMessage relevantChunks) query a =
               [ChatRequest (systemMessage relevantChunks) query,
                Log Warning ''Rate limited, retrying'', Sleep (min (1000 * 2 ^ a) 60000)]) \<or>
            (\<exists>e. attempt_result (chat_endpoint env a (systemMessage relevantChunks) query) =
                   Caught e \<and>
                 attempt_events (chat_endpoint env) (systemMessage relevantChunks) query a =
                   [ChatRequest (systemMessage relevantChunks) query, Sleep (1000 * (a + 1))])) \<and>
         ((\<exists>content.
             attempt_result (chat_endpoint env (n - 1) (systemMessage relevantChunks) query) =
               Answered content \<and>
             attempt_events (chat_endpoint env) (systemMessage relevantChunks) query (n - 1) =
               [ChatRequest (systemMessage relevantChunks) query] \<and>
             snd (generateChatResponse env query relevantChunks) = Next content) \<or>
          (n = maxAttempts \<and>
             attempt_result (chat_endpoint env (n - 1) (systemMessage relevantChunks) query) =
               RateLimited \<and>
             attempt_events (chat_endpoint env) (systemMessage relevantChunks) query (n - 1) =
               [ChatRequest (systemMessage relevantChunks) query,
                Log Warning ''Rate limited, retrying'', Sleep 4000] \<and>
             snd (generateChatResponse env query relevantChunks) = Throw MaxAttempts) \<or>
          (n = maxAttempts \<and>
             (\<exists>e. attempt_result (chat_endpoint env (n - 1) (systemMessage relevantChunks) query) =
                    Caught e \<and>
                  attempt_events (chat_endpoint env) (systemMessage relevantChunks) query (n - 1) =
                    [ChatRequest (systemMessage relevantChunks) query,
                     Log Err ''Failed to generate chat response after retries''] \<and>
                  snd (generateChatResponse env query relevantChunks) = Throw e))))) \<and>
   (\<not> key_missing (api_key env) \<and>
    (\<forall>a<maxAttempts.
       attempt_result (chat_endpoint env a (systemMessage relevantChunks) query) = RateLimited) \<longrightarrow>
    generateChatResponse env query relevantChunks =
      ([ChatRequest (systemMessage relevantChunks) query,
        Log Warning ''Rate limited, retrying'', Sleep 1000,
        ChatRequest (systemMessage relevantChunks) query,
        Log Warning ''Rate limited, retrying'', Sleep 2000,
        ChatRequest (systemMessage relevantChunks) query,
        Log Warning ''Rate limited, retrying'', Sleep 4000],
       Throw MaxAttempts))"
proof -
  let ?chat = "chat_endpoint env"
  let ?sys = "systemMessage relevantChunks"
  let ?res = "\<lambda>a. attempt_result (?chat a ?sys query)"
  let ?ev = "attempt_events ?chat ?sys query"
  let ?g = "generateChatResponse env query relevantChunks"
  have missing: "?g = ([], Throw MissingApiKey)" if "key_missing (api_key env)"
    using that by (simp add: generateChatResponse_def)
  have present: "\<exists>n. 1 \<le> n \<and> n \<le> maxAttempts \<and>
         fst ?g = concat (map ?ev [0..<n]) \<and>
         length (filter is_chat_request (fst ?g)) = n \<and>
         (\<forall>a. a + 1 < n \<longrightarrow>
            (?res a = RateLimited \<and>
             ?ev a = [ChatRequest ?sys query, Log Warning ''Rate limited, retrying'',
                      Sleep (min (1000 * 2 ^ a) 60000)]) \<or>
            (\<exists>e. ?res a = Caught e \<and> ?ev a = [ChatRequest ?sys query, Sleep (1000 * (a + 1))])) \<and>
         ((\<exists>content. ?res (n - 1) = Answered content \<and> ?ev (n - 1) = [ChatRequest ?sys query] \<and>
             snd ?g = Next content) \<or>
          (n = maxAttempts \<and> ?res (n - 1) = RateLimited \<and>
             ?ev (n - 1) = [ChatRequest ?sys query, Log Warning ''Rate limited, retrying'',
                            Sleep 4000] \<and>
             snd ?g = Throw MaxAttempts) \<or>
          (n = maxAttempts \<and>
             (\<exists>e. ?res (n - 1) = Caught e \<and>
                  ?ev (n - 1) = [ChatRequest ?sys query,
                     Log Err ''Failed to generate chat response after retries''] \<and>
                  snd ?g = Throw e)))"
    if key: "\<not> key_missing (api_key env)"
  proof -
    have g: "?g = chat_loop ?chat ?sys query 0 []"
      using key by (simp add: generateChatResponse_def)
    obtain n where n: "0 < n" "n \<le> maxAttempts"
      "fst ?g = [] @ concat (map ?ev [0..<n])"
      "\<forall>a. 0 \<le> a \<and> a + 1 < n \<longrightarrow> ?res a = RateLimited \<or> (\<exists>e. ?res a = Caught e)"
      "(\<exists>content. ?res (n - 1) = Answered content \<and> snd ?g = Next content) \<or>
       (n = maxAttempts \<and> ?res (n - 1) = RateLimited \<and> snd ?g = Throw MaxAttempts) \<or>
       (n = maxAttempts \<and> (\<exists>e. ?res (n - 1) = Caught e \<and> snd ?g = Throw e))"
      unfolding g using chat_loop_run[of 0 ?chat ?sys query "[]"] by auto
    have count: "length (filter is_chat_request (fst ?g)) = n"
      unfolding n(3) by (simp only: append_Nil chat_requests_concat length_upt diff_zero)
    have before: "(?res a = RateLimited \<and>
             ?ev a = [ChatRequest ?sys query, Log Warning ''Rate limited, retrying'',
                      Sleep (min (1000 * 2 ^ a) 60000)]) \<or>
            (\<exists>e. ?res a = Caught e \<and> ?ev a = [ChatRequest ?sys query, Sleep (1000 * (a + 1))])"
      if a: "a + 1 < n" for a
    proof -
      have lt: "a + 1 < maxAttempts" using a n(2) by simp
      from n(4) a have "?res a = RateLimited \<or> (\<exists>e. ?res a = Caught e)" by simp
      then show ?thesis
      proof
        assume r: "?res a = RateLimited"
        then show ?thesis by (simp add: attempt_events_def)
      next
        assume "\<exists>e. ?res a = Caught e"
        then obtain e where e: "?res a = Caught e" ..
        from e lt show ?thesis by (simp add: attempt_events_def)
      qed
    qed
    have final: "(\<exists>content. ?res (n - 1) = Answered content \<and> ?ev (n - 1) = [ChatRequest ?sys query] \<and>
             snd ?g = Next content) \<or>
          (n = maxAttempts \<and> ?res (n - 1) = RateLimited \<and>
             ?ev (n - 1) = [ChatRequest ?sys query, Log Warning ''Rate limited, retrying'',
                            Sleep 4000] \<and>
             snd ?g = Throw MaxAttempts) \<or>
          (n = maxAttempts \<and>
             (\<exists>e. ?res (n - 1) = Caught e \<and>
                  ?ev (n - 1) = [ChatRequest ?sys query,
                     Log Err ''Failed to generate chat response after retries''] \<and>
                  snd ?g = Throw e))"
      using n(5)
    proof (elim disjE exE conjE)
      fix content assume r: "?res (n - 1) = Answered content" and s: "snd ?g = Next content"
      have "?ev (n - 1) = [ChatRequest ?sys query]"
        using r by (simp add: attempt_events_def)
      with r s show ?thesis by blast
    next
      assume m: "n = maxAttempts" and r: "?res (n - 1) = RateLimited"
        and s: "snd ?g = Throw MaxAttempts"
      have "?ev (n - 1) = [ChatRequest ?sys query, Log Warning ''Rate limited, retrying'',
                            Sleep 4000]"
        using r m by (simp add: attempt_events_def)
      with m r s show ?thesis by blast
    next
      fix e assume m: "n = maxAttempts" and r: "?res (n - 1) = Caught e" and s: "snd ?g = Throw e"
      have "?ev (n - 1) = [ChatRequest ?sys query,
                     Log Err ''Failed to generate chat response after retries'']"
        using r m by (simp add: attempt_events_def)
      with m r s show ?thesis by blast
    qed
    from n(1) n(2) n(3) count before final show ?thesis
      by (intro exI[of _ n]) simp
  qed
  have always: "?g =
      ([ChatRequest ?sys query, Log Warning ''Rate limited, retrying'', Sleep 1000,
        ChatRequest ?sys query, Log Warning ''Rate limited, retrying'', Sleep 2000,
        ChatRequest ?sys query, Log Warning ''Rate limited, retrying'', Sleep 4000],
       Throw MaxAttempts)"
    if a: "\<not> key_missing (api_key env) \<and> (\<forall>a<maxAttempts. ?res a = RateLimited)"
  proof -
    from a have "chat_loop ?chat ?sys query 0 [] =
      ([ChatRequest ?sys query, Log Warning ''Rate limited, retrying'', Sleep 1000,
        ChatRequest ?sys query, Log Warning ''Rate limited, retrying'', Sleep 2000,
        ChatRequest ?sys query, Log Warning ''Rate limited, retrying'', Sleep 4000],
       Throw MaxAttempts)"
      using chat_loop_rate_limited by blast
    with a show ?thesis by (simp add: generateChatResponse_def)
  qed
  from missing present always show ?thesis by blast
qed


theorem generateChatResponse_retry_bound_witness:
  "\<not> key_missing (api_key (demo_env\<lparr>chat_endpoint := \<lambda>n system query. Inr (Response 429 (Inr []) (Inl []))\<rparr>)) \<and>
   attempt_result (Inr (Response 429 (Inr []) (Inl []))) = RateLimited \<and>
   generateChatResponse
     (demo_env\<lparr>chat_endpoint := \<lambda>n system query. Inr (Response 429 (Inr []) (Inl []))\<rparr>)
     (Str (js_of ''Are cats mammals?'')) [] =
     ([ChatRequest (systemMessage []) (Str (js_of ''Are cats mammals?'')),
       Log Warning ''Rate limited, retrying'', Sleep 1000,
       ChatRequest (systemMessage []) (Str (js_of ''Are cats mammals?'')),
       Log Warning ''Rate limited, retrying'', Sleep 2000,
       ChatRequest (systemMessage []) (Str (js_of ''Are cats mammals?'')),
       Log Warning ''Rate limited, retrying'', Sleep 4000],
      Throw MaxAttempts) \<and>
   length (filter is_chat_request (fst (generateChatResponse
     (demo_env\<lparr>chat_endpoint := \<lambda>n system query. Inr (Response 429 (Inr []) (Inl []))\<rparr>)
     (Str (js_of ''Are cats mammals?'')) []))) = 3 \<and>
   generateChatResponse
     (demo_env\<lparr>chat_endpoint := \<lambda>n system query.
        if n = 0 then Inr (Response 429 (Inr []) (Inl []))
        else if n = 1 then Inr (Response 503 (Inr ''busy'') (Inl []))
        else Inr (Response 200 (Inr []) (Inr ''Yes.''))\<rparr>)
     (Str (js_of ''Are cats mammals?'')) [] =
     ([ChatRequest (systemMessage []) (Str (js_of ''Are cats mammals?'')),
       Log Warning ''Rate limited, retrying'', Sleep 1000,
       ChatRequest (systemMessage []) (Str (js_of ''Are cats mammals?'')),
       Sleep 2000,
       ChatRequest (systemMessage []) (Str (js_of ''Are cats mammals?''))],
      Next ''Yes.'') \<and>
   generateChatResponse
     (demo_env\<lparr>chat_endpoint := \<lambda>n system query. Inl ''connection refused''\<rparr>)
     (Str (js_of ''Are cats mammals?'')) [] =
     ([ChatRequest (systemMessage []) (Str (js_of ''Are cats mammals?'')), Sleep 1000,
       ChatRequest (systemMessage []) (Str (js_of ''Are cats mammals?'')), Sleep 2000,
       ChatRequest (systemMessage []) (Str (js_of ''Are cats mammals?'')),
       Log Err ''Failed to generate chat response after retries''],
      Throw (Thrown ''connection refused'')) \<and>
   key_missing (api_key (demo_env\<lparr>api_key := None\<rparr>)) \<and>
   generateChatResponse (demo_env\<lparr>api_key := None\<rparr>) (Str (js_of ''Are cats mammals?'')) [] =
     ([], Throw MissingApiKey)"
proof -
  let ?env = "demo_env\<lparr>chat_endpoint := \<lambda>n system query. Inr (Response 429 (Inr []) (Inl []))\<rparr>"
  let ?q = "Str (js_of ''Are cats mammals?'')"
  note inst = generateChatResponse_retry_bound [of ?env ?q "[]"]
  note none = generateChatResponse_retry_bound [of "demo_env\<lparr>api_key := None\<rparr>" ?q "[]"]
  have key: "\<not> key_missing (api_key ?env)"
    by (simp add: demo_env_def key_missing_def)
  have rl: "attempt_result (Inr (Response 429 (Inr []) (Inl []))) = RateLimited"
    by (simp add: attempt_result_def)
  then have all: "\<forall>a<maxAttempts.
      attempt_result (chat_endpoint ?env a (systemMessage []) ?q) = RateLimited"
    by simp
  have run: "generateChatResponse ?env ?q [] =
      ([ChatRequest (systemMessage []) ?q, Log Warning ''Rate limited, retrying'', Sleep 1000,
        ChatRequest (systemMessage []) ?q, Log Warning ''Rate limited, retrying'', Sleep 2000,
        ChatRequest (systemMessage []) ?q, Log Warning ''Rate limited, retrying'', Sleep 4000],
       Throw MaxAttempts)"
    using inst key all by blast
  have mixed: "generateChatResponse
     (demo_env\<lparr>chat_endpoint := \<lambda>n system query.
        if n = 0 then Inr (Response 429 (Inr []) (Inl []))
        else if n = 1 then Inr (Response 503 (Inr ''busy'') (Inl []))
        else Inr (Response 200 (Inr []) (Inr ''Yes.''))\<rparr>) ?q [] =
     ([ChatRequest (systemMessage []) ?q, Log Warning ''Rate limited, retrying'', Sleep 1000,
       ChatRequest (systemMessage []) ?q, Sleep 2000,
       ChatRequest (systemMessage []) ?q],
      Next ''Yes.'')"
    by (simp add: generateChatResponse_def demo_env_def key_missing_def attempt_result_def
        ok_def chat_loop.simps)
  have refused: "generateChatResponse
     (demo_env\<lparr>chat_endpoint := \<lambda>n system query. Inl ''connection refused''\<rparr>) ?q [] =
     ([ChatRequest (systemMessage []) ?q, Sleep 1000,
       ChatRequest (systemMessage []) ?q, Sleep 2000,
       ChatRequest (systemMessage []) ?q,
       Log Err ''Failed to generate chat response after retries''],
      Throw (Thrown ''connection refused''))"
    by (simp add: generateChatResponse_def demo_env_def key_missing_def attempt_result_def
        ok_def chat_loop.simps)
  have nokey: "key_missing (api_key (demo_env\<lparr>api_key := None\<rparr>))"
    by (simp add: key_missing_def)
  have missing: "generateChatResponse (demo_env\<lparr>api_key := None\<rparr>) ?q [] =
     ([], Throw MissingApiKey)"
    using none nokey by blast
  from key rl mixed refused nokey missing show ?thesis unfolding run by simp
qed

section \<open>Properties of the retrieval\<close>

lemma match_documents_rows:
  assumes "r \<in> set (match_documents distance chunks q threshold n)"
  shows "\<exists>c\<in>set chunks. row_id r = chunk_id c \<and> row_document_id r = document_id c \<and>
           row_chunk_text r = chunk_text c"
proof -
  let ?scored = "List.map_filter
      (\<lambda>c. case chunk_embedding c of None \<Rightarrow> None | Some e \<Rightarrow> Some (c, distance e q)) chunks"
  from assms obtain c d where cd: "(c, d) \<in> set (take (nat n)
      (sort_key snd (filter (\<lambda>(c, d). 1 - d > threshold) ?scored)))"
    and r: "r = \<lparr>row_id = chunk_id c, row_document_id = document_id c,
                 row_chunk_text = chunk_text c, similarity = 1 - d\<rparr>"
    unfolding match_documents_def by auto
  from cd have "(c, d) \<in> set (sort_key snd (filter (\<lambda>(c, d). 1 - d > threshold) ?scored))"
    by (rule in_set_takeD)
  then have "(c, d) \<in> set ?scored" by simp
  then have "c \<in> set chunks"
    by (auto simp: List.map_filter_def split: option.splits)
  with r show ?thesis by auto
qed

lemma id_included_completed:
  assumes "id_included (map doc_id (completed_documents docs userId)) parent"
  shows "\<exists>d\<in>set docs. parent = Some (doc_id d) \<and> uploaded_by d = Some userId \<and>
           processing_status d = Some Completed"
  using assms by (auto simp: id_included_def completed_documents_def split: option.splits)

lemma fallbackTextSearch_rows:
  assumes "fallbackTextSearch env ids = (tr, Next rows)" and "r \<in> set rows"
  shows "similarity r = 0.5 \<and> id_included ids (row_document_id r) \<and>
         (\<exists>c\<in>set (document_chunks (store env)). row_id r = chunk_id c \<and>
            row_document_id r = document_id c \<and> row_chunk_text r = chunk_text c)"
proof -
  let ?cs = "take 5 (filter (\<lambda>c. id_included ids (document_id c)) (document_chunks (store env)))"
  from assms(1) have "rows = map (\<lambda>c. \<lparr>row_id = chunk_id c, row_document_id = document_id c,
                            row_chunk_text = chunk_text c, similarity = 0.5\<rparr>) ?cs"
    by (auto simp: fallbackTextSearch_def split: option.splits)
  with assms(2) obtain c where c: "c \<in> set ?cs"
    and r: "r = \<lparr>row_id = chunk_id c, row_document_id = document_id c,
                 row_chunk_text = chunk_text c, similarity = 0.5\<rparr>"
    by auto
  from c have "c \<in> set (filter (\<lambda>c. id_included ids (document_id c)) (document_chunks (store env)))"
    by (rule in_set_takeD)
  with r show ?thesis by auto
qed

lemma bindS_unit: "bindS (tr, Next ()) f = (tr @ fst (f ()), snd (f ()))"
  by (simp add: bindS_def split: prod.splits)

lemma findRelevantChunks_rows:
  assumes run: "findRelevantChunks env queryEmbedding userId = (tr, Next rows)"
    and r: "r \<in> set rows"
  shows "id_included (map doc_id (completed_documents (documents (store env)) userId))
           (row_document_id r) \<and>
         (\<exists>c\<in>set (document_chunks (store env)). row_id r = chunk_id c \<and>
            row_document_id r = document_id c \<and> row_chunk_text r = chunk_text c)"
proof -
  let ?ids = "map doc_id (completed_documents (documents (store env)) userId)"
  let ?m = "match_documents (distance_op env) (document_chunks (store env)) queryEmbedding 0.1 5"
  have fb: ?thesis if "snd (fallbackTextSearch env ?ids) = Next rows"
  proof -
    from that have "fallbackTextSearch env ?ids = (fst (fallbackTextSearch env ?ids), Next rows)"
      by (metis prod.collapse)
    from fallbackTextSearch_rows[OF this r] show ?thesis by blast
  qed
  from run have de: "documents_error env = None"
    by (auto simp: findRelevantChunks_def split: option.splits)
  show ?thesis
  proof (cases "completed_documents (documents (store env)) userId = []")
    case True
    with run de have "rows = []" by (simp add: findRelevantChunks_def)
    with r show ?thesis by simp
  next
    case False
    show ?thesis
    proof (cases "search_error env")
      case (Some m)
      with run de False have "snd (fallbackTextSearch env ?ids) = Next rows"
        by (simp add: findRelevantChunks_def bindS_unit)
      then show ?thesis by (rule fb)
    next
      case None
      show ?thesis
      proof (cases "?m = []")
        case True
        with run de False None have "snd (fallbackTextSearch env ?ids) = Next rows"
          by (simp add: findRelevantChunks_def bindS_unit)
        then show ?thesis by (rule fb)
      next
        case nonempty: False
        with run de False None have "rows = filter (\<lambda>chunk. id_included ?ids (row_document_id chunk)) ?m"
          by (simp add: findRelevantChunks_def)
        with r have inc: "id_included ?ids (row_document_id r)" and m: "r \<in> set ?m" by auto
        from inc match_documents_rows[OF m] show ?thesis by (rule conjI)
      qed
    qed
  qed
qed

text \<open>
  C1.  Every row returned by \<open>findRelevantChunks\<close>, by the similarity path or by the
  textual fallback, is a stored chunk whose parent document is uploaded by the querying
  user and has the status \<open>completed\<close>; with the primary key of the documents table,
  the document of that id is the only one, so no chunk of a document in another state or
  of another user is returned.
\<close>

theorem findRelevantChunks_scoped:
  assumes "findRelevantChunks env queryEmbedding userId = (tr, Next rows)"
    and "r \<in> set rows"
  shows "(\<exists>c\<in>set (document_chunks (store env)).
            row_id r = chunk_id c \<and> row_document_id r = document_id c) \<and>
         (\<exists>d\<in>set (documents (store env)).
            row_document_id r = Some (doc_id d) \<and> uploaded_by d = Some userId \<and>
            processing_status d = Some Completed) \<and>
         (distinct (map doc_id (documents (store env))) \<longrightarrow>
            (\<forall>d\<in>set (documents (store env)).
               row_document_id r = Some (doc_id d) \<longrightarrow>
               uploaded_by d = Some userId \<and> processing_status d = Some Completed))"
proof -
  from findRelevantChunks_rows[OF assms]
  have inc: "id_included (map doc_id (completed_documents (documents (store env)) userId))
           (row_document_id r)"
    and ch: "\<exists>c\<in>set (document_chunks (store env)). row_id r = chunk_id c \<and>
            row_document_id r = document_id c"
    by blast+
  from id_included_completed[OF inc] obtain d where d: "d \<in> set (documents (store env))"
    "row_document_id r = Some (doc_id d)" "uploaded_by d = Some userId"
    "processing_status d = Some Completed"
    by blast
  have uniq: "d' = d" if "distinct (map doc_id (documents (store env)))"
    and "d' \<in> set (documents (store env))" and "row_document_id r = Some (doc_id d')" for d'
    using that d(1,2) by (simp add: distinct_map inj_on_def)
  from ch d uniq show ?thesis by blast
qed

theorem findRelevantChunks_scoped_witness:
  "findRelevantChunks demo_env 0 (js_of ''bob'') =
     ([SelectDocuments (js_of ''bob''), RpcMatchDocuments],
      Next [\<lparr>row_id = js_of ''c2'', row_document_id = Some (js_of ''d2''),
             row_chunk_text = js_of ''Dogs are mammals too'', similarity = 0.8\<rparr>]) \<and>
   distinct (map doc_id (documents (store demo_env))) \<and>
   (\<exists>d\<in>set (documents (store demo_env)).
      Some (js_of ''d2'') = Some (doc_id d) \<and> uploaded_by d = Some (js_of ''bob'') \<and>
      processing_status d = Some Completed) \<and>
   list_all (\<lambda>d. Some (js_of ''d2'') = Some (doc_id d) \<longrightarrow>
        uploaded_by d = Some (js_of ''bob'') \<and> processing_status d = Some Completed)
     (documents (store demo_env))"
proof -
  let ?r = "\<lparr>row_id = js_of ''c2'', row_document_id = Some (js_of ''d2''),
             row_chunk_text = js_of ''Dogs are mammals too'', similarity = 0.8\<rparr>"
  have run: "findRelevantChunks demo_env 0 (js_of ''bob'') =
     ([SelectDocuments (js_of ''bob''), RpcMatchDocuments], Next [?r])"
    by code_simp
  have mem: "?r \<in> set [?r]" by simp
  have dis: "distinct (map doc_id (documents (store demo_env)))"
    by code_simp
  from findRelevantChunks_scoped [OF run mem] dis
  have "(\<exists>d\<in>set (documents (store demo_env)).
      Some (js_of ''d2'') = Some (doc_id d) \<and> uploaded_by d = Some (js_of ''bob'') \<and>
      processing_status d = Some Completed) \<and>
   (\<forall>d\<in>set (documents (store demo_env)). Some (js_of ''d2'') = Some (doc_id d) \<longrightarrow>
        uploaded_by d = Some (js_of ''bob'') \<and> processing_status d = Some Completed)"
    by simp
  with run dis show ?thesis unfolding list_all_iff by blast
qed

text \<open>
  When the user has a completed document, the similarity query fails or returns no row
  at all, and the fallback query succeeds, \<open>findRelevantChunks\<close> returns the first
  chunks, at most 5, of the user's completed documents, each with the similarity 0.5; the
  result is non-empty exactly when one of these documents has a stored chunk.
\<close>

lemma findRelevantChunks_fallback:
  assumes "completed_documents (documents (store env)) userId \<noteq> []"
    and "documents_error env = None"
    and "search_error env \<noteq> None \<or>
         match_documents (distance_op env) (document_chunks (store env)) queryEmbedding 0.1 5 = []"
    and "fallback_error env = None"
  shows "\<exists>rows.
     snd (findRelevantChunks env queryEmbedding userId) = Next rows \<and>
     rows = map (\<lambda>c. \<lparr>row_id = chunk_id c, row_document_id = document_id c,
                       row_chunk_text = chunk_text c, similarity = 0.5\<rparr>)
              (take 5 (filter
                 (\<lambda>c. id_included
                    (map doc_id (completed_documents (documents (store env)) userId))
                    (document_id c))
                 (document_chunks (store env)))) \<and>
     length rows \<le> 5 \<and>
     (\<forall>r\<in>set rows. similarity r = 0.5) \<and>
     (rows \<noteq> [] \<longleftrightarrow>
        (\<exists>c\<in>set (document_chunks (store env)).
           id_included (map doc_id (completed_documents (documents (store env)) userId))
             (document_id c)))"
proof -
  let ?ids = "map doc_id (completed_documents (documents (store env)) userId)"
  let ?cs = "filter (\<lambda>c. id_included ?ids (document_id c)) (document_chunks (store env))"
  let ?rows = "map (\<lambda>c. \<lparr>row_id = chunk_id c, row_document_id = document_id c,
                       row_chunk_text = chunk_text c, similarity = 0.5\<rparr>) (take 5 ?cs)"
  have fb: "snd (fallbackTextSearch env ?ids) = Next ?rows"
    using assms(4) by (simp add: fallbackTextSearch_def)
  have run: "snd (findRelevantChunks env queryEmbedding userId) = Next ?rows"
  proof (cases "search_error env")
    case (Some m)
    with assms(1,2) fb show ?thesis by (simp add: findRelevantChunks_def bindS_unit)
  next
    case None
    with assms(3) have "match_documents (distance_op env) (document_chunks (store env))
        queryEmbedding 0.1 5 = []" by simp
    with None assms(1,2) fb show ?thesis by (simp add: findRelevantChunks_def bindS_unit)
  qed
  have ne: "?rows \<noteq> [] \<longleftrightarrow> (\<exists>c\<in>set (document_chunks (store env)). id_included ?ids (document_id c))"
  proof -
    have "?rows \<noteq> [] \<longleftrightarrow> ?cs \<noteq> []" by simp
    also have "\<dots> \<longleftrightarrow> (\<exists>c\<in>set (document_chunks (store env)). id_included ?ids (document_id c))"
      by (simp add: filter_empty_conv)
    finally show ?thesis .
  qed
  have "length ?rows \<le> 5" by simp
  moreover have "\<forall>r\<in>set ?rows. similarity r = 0.5" by auto
  ultimately show ?thesis using run ne by blast
qed

lemma findRelevantChunks_fallback_run:
  "completed_documents (documents (store (demo_env\<lparr>search_error := Some ''engine''\<rparr>)))
     (js_of ''alice'') \<noteq> [] \<and>
   documents_error (demo_env\<lparr>search_error := Some ''engine''\<rparr>) = None \<and>
   search_error (demo_env\<lparr>search_error := Some ''engine''\<rparr>) \<noteq> None \<and>
   fallback_error (demo_env\<lparr>search_error := Some ''engine''\<rparr>) = None \<and>
   findRelevantChunks (demo_env\<lparr>search_error := Some ''engine''\<rparr>) 0 (js_of ''alice'') =
     ([SelectDocuments (js_of ''alice''), RpcMatchDocuments, Log Err ''Vector search failed'',
       SelectChunks [js_of ''d1'']],
      Next [\<lparr>row_id = js_of ''c1'', row_document_id = Some (js_of ''d1''),
             row_chunk_text = js_of ''Cats are mammals'', similarity = 0.5\<rparr>]) \<and>
   (\<exists>rows. snd (findRelevantChunks (demo_env\<lparr>search_error := Some ''engine''\<rparr>) 0
        (js_of ''alice'')) = Next rows \<and> rows \<noteq> [] \<and> length rows \<le> 5)"
proof -
  let ?env = "demo_env\<lparr>search_error := Some ''engine''\<rparr>"
  have h1: "completed_documents (documents (store ?env)) (js_of ''alice'') \<noteq> []"
    by code_simp
  have h2: "documents_error ?env = None" by (simp add: demo_env_def)
  have h3: "search_error ?env \<noteq> None" by simp
  have h4: "fallback_error ?env = None" by (simp add: demo_env_def)
  have run: "findRelevantChunks ?env 0 (js_of ''alice'') =
     ([SelectDocuments (js_of ''alice''), RpcMatchDocuments, Log Err ''Vector search failed'',
       SelectChunks [js_of ''d1'']],
      Next [\<lparr>row_id = js_of ''c1'', row_document_id = Some (js_of ''d1''),
             row_chunk_text = js_of ''Cats are mammals'', similarity = 0.5\<rparr>])"
    by code_simp
  from findRelevantChunks_fallback [of ?env "js_of ''alice''" 0, OF h1 h2 disjI1 [OF h3] h4]
  obtain rows where "snd (findRelevantChunks ?env 0 (js_of ''alice'')) = Next rows"
    "length rows \<le> 5" by blast
  moreover from this(1) run have "rows \<noteq> []" by auto
  ultimately have "\<exists>rows. snd (findRelevantChunks ?env 0 (js_of ''alice'')) = Next rows \<and>
      rows \<noteq> [] \<and> length rows \<le> 5" by blast
  with h1 h2 h3 h4 run show ?thesis by (simp only: simp_thms)
qed

text \<open>
  C2.  A user with a completed document gets no chunk, and no fallback is run, when the
  similarity query returns rows that all belong to other documents.  \<open>match_documents\<close>
  ranks the chunks of every user and keeps 5; the test that starts the fallback looks at
  these rows, before the filter on the user's documents, which here leaves none.  The
  user's own chunk passes the threshold with the similarity 0.9, the fallback would have
  returned it, and the handler gives the answer of a user without documents.
\<close>

theorem findRelevantChunks_crowded_out:
  "map doc_id (completed_documents (documents (store crowded_env)) (js_of ''alice'')) =
     [js_of ''d1''] \<and>
   documents_error crowded_env = None \<and> search_error crowded_env = None \<and>
   fallback_error crowded_env = None \<and>
   map (\<lambda>r. (row_id r, row_document_id r, similarity r))
     (match_documents (distance_op crowded_env) (document_chunks (store crowded_env)) 0 0.1 5) =
     [(js_of ''b1'', Some (js_of ''d2''), 0.95), (js_of ''b2'', Some (js_of ''d2''), 0.95),
      (js_of ''b3'', Some (js_of ''d2''), 0.95), (js_of ''b4'', Some (js_of ''d2''), 0.95),
      (js_of ''b5'', Some (js_of ''d2''), 0.95)] \<and>
   map (\<lambda>r. (row_id r, row_document_id r, similarity r))
     (match_documents (distance_op crowded_env)
        (filter (\<lambda>c. id_included [js_of ''d1''] (document_id c))
           (document_chunks (store crowded_env))) 0 0.1 5) =
     [(js_of ''a1'', Some (js_of ''d1''), 0.9)] \<and>
   findRelevantChunks crowded_env 0 (js_of ''alice'') =
     ([SelectDocuments (js_of ''alice''), RpcMatchDocuments], Next []) \<and>
   fallbackTextSearch crowded_env [js_of ''d1''] =
     ([SelectChunks [js_of ''d1'']],
      Next [\<lparr>row_id = js_of ''a1'', row_document_id = Some (js_of ''d1''),
             row_chunk_text = js_of ''Cats are mammals'', similarity = 0.5\<rparr>]) \<and>
   fst (handle_query crowded_env (demo_request ''alice'')) = AnswerJson 200 no_information []"
  by code_simp

section \<open>Properties of the query handler\<close>

declare chat_loop.simps [simp del]

lemma no_chat_append [simp]: "no_chat (a @ b) \<longleftrightarrow> no_chat a \<and> no_chat b"
  by (simp add: no_chat_def)

lemma no_chat_Nil [simp]: "no_chat []"
  by (simp add: no_chat_def)

lemma bindS_Next: "m = (tr, Next x) \<Longrightarrow> bindS m f = (tr @ fst (f x), snd (f x))"
  by (simp add: bindS_def split: prod.splits)

lemma bindS_Reply: "m = (tr, Reply r) \<Longrightarrow> bindS m f = (tr, Reply r)"
  by (simp add: bindS_def)

lemma bindS_Throw: "m = (tr, Throw e) \<Longrightarrow> bindS m f = (tr, Throw e)"
  by (simp add: bindS_def)

lemma bindS_pair:
  "bindS (tr, Next x) f = (tr @ fst (f x), snd (f x))"
  "bindS (tr, Reply r) f = (tr, Reply r)"
  "bindS (tr, Throw e) f = (tr, Throw e)"
  by (simp_all add: bindS_def split: prod.splits)

lemma run_cases:
  obtains (Next) tr x where "m = (tr, Next x)"
  | (Reply) tr r where "m = (tr, Reply r)"
  | (Throw) tr e where "m = (tr, Throw e)"
  by (cases m; cases "snd m") auto

lemma verify_session_no_chat: "no_chat (fst (verify_session c a h u))"
  by (auto simp: verify_session_def createSupabaseAdmin_def bindS_def no_chat_def
      split: option.splits sum.splits prod.splits)

lemma verify_session_user:
  "verify_session c a h u = (tr, Next uid) \<Longrightarrow> u = Str uid"
  by (auto simp: verify_session_def createSupabaseAdmin_def bindS_def
      split: option.splits sum.splits prod.splits if_splits)

lemma generateQueryEmbedding_no_chat: "no_chat (fst (generateQueryEmbedding env q))"
  by (auto simp: generateQueryEmbedding_def no_chat_def split: sum.splits)

lemma findRelevantChunks_none:
  "completed_documents (documents (store env)) uid = [] \<Longrightarrow>
   findRelevantChunks env qe uid = ([SelectDocuments uid], Next []) \<or>
   (\<exists>m. findRelevantChunks env qe uid = ([SelectDocuments uid], Throw (FetchDocumentsFailed m)))"
  by (auto simp: findRelevantChunks_def split: option.splits)

lemma bindS_lift_Inr: "bindS (lift (Inr x)) f = f x"
  by (simp add: bindS_def lift_def split: prod.splits)

lemma bindS_lift_Inl: "bindS (lift (Inl e)) f = ([], Throw e)"
  by (simp add: bindS_def lift_def)

lemma verify_session_reply:
  "verify_session c a h u = (tr, Reply r) \<Longrightarrow>
   r = ErrorJson 401 ''Missing authorization'' \<or> r = ErrorJson 401 ''Unauthorized''"
  by (auto simp: verify_session_def createSupabaseAdmin_def bindS_def
      split: option.splits sum.splits prod.splits if_splits)

lemma generateQueryEmbedding_no_reply: "snd (generateQueryEmbedding env q) \<noteq> Reply r"
  by (auto simp: generateQueryEmbedding_def split: sum.splits)

lemma query_try_no_documents:
  assumes none: "\<forall>uid. field ''userId'' req = Str uid \<longrightarrow>
      completed_documents (documents (store env)) uid = []"
  shows "no_chat (fst (query_try env req)) \<and>
         (case snd (query_try env req) of
            Next r \<Rightarrow> False | Reply r \<Rightarrow> short_reply r | Throw e \<Rightarrow> True)"
proof (cases "req_body req")
  case (Inl m)
  then show ?thesis by (simp add: query_try_def bindS_lift_Inl)
next
  case (Inr v)
  show ?thesis
  proof (cases "get_prop ''query'' v")
    case (Inl e)
    with Inr show ?thesis by (simp add: query_try_def bindS_lift_Inr bindS_lift_Inl)
  next
    case q: (Inr query)
    show ?thesis
    proof (cases "get_prop ''userId'' v")
      case (Inl e)
      with Inr q show ?thesis by (simp add: query_try_def lift_def bindS_def)
    next
      case u: (Inr userId)
      have fld: "field ''userId'' req = userId" using Inr u by (simp add: field_def)
      show ?thesis
      proof (cases "\<not> truthy query \<or> \<not> truthy userId")
        case True
        with Inr q u show ?thesis
          by (auto simp: query_try_def bindS_lift_Inr short_reply_def)
      next
        case False
        let ?auth = "verify_session (configured env) (auth_service env) (req_authorization req) userId"
        let ?rest = "\<lambda>uid.
           bindS (generateQueryEmbedding env query) (\<lambda>queryEmbedding.
           bindS (findRelevantChunks env queryEmbedding uid) (\<lambda>relevantChunks.
             if length relevantChunks = 0
             then (([], Reply (AnswerJson 200 no_information [])) :: reply run)
             else
           bindS (generateChatResponse env query relevantChunks) (\<lambda>answer.
             ([Log Info ''Chat query completed''],
              Reply (AnswerJson 200 answer
                (map (\<lambda>chunk. (row_id chunk, similarity chunk)) relevantChunks))))))"
        have qt: "query_try env req =
            ([Log Info ''Processing chat query''] @ fst (bindS ?auth ?rest),
             snd (bindS ?auth ?rest))"
          unfolding query_try_def
          by (simp only: Inr q u sum.case bindS_lift_Inr bindS_unit False if_False)
        have log: "no_chat [Log Info ''Processing chat query'']" by (simp add: no_chat_def)
        have "no_chat (fst (bindS ?auth ?rest)) \<and>
         (case snd (bindS ?auth ?rest) of
            Next r \<Rightarrow> False | Reply r \<Rightarrow> short_reply r | Throw e \<Rightarrow> True)"
        proof (cases rule: run_cases[of ?auth])
          case (Reply tr r)
          have "no_chat tr" using verify_session_no_chat[of "configured env" "auth_service env"
              "req_authorization req" userId] Reply by simp
          moreover have "short_reply r"
            using verify_session_reply[OF Reply] by (auto simp: short_reply_def)
          ultimately show ?thesis by (simp add: bindS_Reply[OF Reply])
        next
          case (Throw tr e)
          have "no_chat tr" using verify_session_no_chat[of "configured env" "auth_service env"
              "req_authorization req" userId] Throw by simp
          then show ?thesis by (simp add: bindS_Throw[OF Throw])
        next
          case (Next tr uid)
          have tr: "no_chat tr" using verify_session_no_chat[of "configured env" "auth_service env"
              "req_authorization req" userId] Next by simp
          have "userId = Str uid" using Next by (rule verify_session_user)
          with fld none have nodocs: "completed_documents (documents (store env)) uid = []"
            by simp
          have rest: "no_chat (fst (?rest uid)) \<and>
             (case snd (?rest uid) of
                Next r \<Rightarrow> False | Reply r \<Rightarrow> short_reply r | Throw e \<Rightarrow> True)"
          proof (cases rule: run_cases[of "generateQueryEmbedding env query"])
            case (Reply tr' r)
            then show ?thesis using generateQueryEmbedding_no_reply[of env query r] by simp
          next
            case (Throw tr' e)
            have "no_chat tr'" using generateQueryEmbedding_no_chat[of env query] Throw by simp
            then show ?thesis by (simp add: bindS_Throw[OF Throw])
          next
            case emb: (Next tr' qe)
            have tr': "no_chat tr'" using generateQueryEmbedding_no_chat[of env query] emb by simp
            from findRelevantChunks_none[OF nodocs, of qe]
            show ?thesis
            proof
              assume f: "findRelevantChunks env qe uid = ([SelectDocuments uid], Next [])"
              show ?thesis
                using tr' by (simp add: bindS_Next[OF emb] bindS_Next[OF f] short_reply_def
                    no_chat_def)
            next
              assume "\<exists>m. findRelevantChunks env qe uid =
                  ([SelectDocuments uid], Throw (FetchDocumentsFailed m))"
              then obtain m where f: "findRelevantChunks env qe uid =
                  ([SelectDocuments uid], Throw (FetchDocumentsFailed m))" ..
              show ?thesis
                using tr' by (simp add: bindS_Next[OF emb] bindS_Throw[OF f] no_chat_def)
            qed
          qed
          show ?thesis using tr rest by (simp add: bindS_Next[OF Next])
        qed
        with log show ?thesis unfolding qt fst_conv snd_conv no_chat_append by blast
      qed
    qed
  qed
qed


text \<open>
  C4 (amended).  When the user named in the request has no completed document, the query
  handler never sends a request to the chat endpoint, and any answer it gives is the fixed
  ``no relevant information'' answer with an empty list of source chunks.  It gives that
  answer when the request is a POST with a query and a user id, the session is verified,
  the query is embedded and the document lookup succeeds.
\<close>

theorem handle_query_no_documents:
  "((\<forall>uid. field ''userId'' req = Str uid \<longrightarrow>
        completed_documents (documents (store env)) uid = []) \<longrightarrow>
      no_chat (snd (handle_query env req)) \<and>
      (\<forall>status answer sources.
         fst (handle_query env req) = AnswerJson status answer sources \<longrightarrow>
         status = 200 \<and> answer = no_information \<and> sources = [])) \<and>
   (req_method req = ''POST'' \<and> req_body req = Inr v \<and>
    get_prop ''query'' v = Inr query \<and> get_prop ''userId'' v = Inr (Str uid) \<and>
    truthy query \<and> uid \<noteq> [] \<and>
    verify_session (configured env) (auth_service env) (req_authorization req) (Str uid) =
      (tr1, Next uid) \<and>
    generateQueryEmbedding env query = (tr2, Next queryEmbedding) \<and>
    documents_error env = None \<and>
    completed_documents (documents (store env)) uid = [] \<longrightarrow>
    handle_query env req =
      (AnswerJson 200 no_information [],
       [Log Info ''Processing chat query''] @ tr1 @ tr2 @ [SelectDocuments uid]))"
proof -
  have part1: "no_chat (snd (handle_query env req)) \<and>
      (\<forall>status answer sources.
         fst (handle_query env req) = AnswerJson status answer sources \<longrightarrow>
         status = 200 \<and> answer = no_information \<and> sources = [])"
    if none: "\<forall>uid. field ''userId'' req = Str uid \<longrightarrow>
        completed_documents (documents (store env)) uid = []"
  proof (cases "req_method req \<noteq> ''POST''")
    case True
    then show ?thesis by (simp add: handle_query_def)
  next
    case False
    from query_try_no_documents[OF none]
    have nc: "no_chat (fst (query_try env req))"
      and sh: "case snd (query_try env req) of
            Next r \<Rightarrow> False | Reply r \<Rightarrow> short_reply r | Throw e \<Rightarrow> True"
      by blast+
    show ?thesis
    proof (cases rule: run_cases[of "query_try env req"])
      case (Next tr x)
      with sh show ?thesis by simp
    next
      case (Reply tr r)
      with sh have "short_reply r" by simp
      with nc Reply False show ?thesis
        by (auto simp: handle_query_def short_reply_def)
    next
      case (Throw tr e)
      with nc False show ?thesis
        by (simp add: handle_query_def no_chat_def)
    qed
  qed
  have part2: "handle_query env req =
      (AnswerJson 200 no_information [],
       [Log Info ''Processing chat query''] @ tr1 @ tr2 @ [SelectDocuments uid])"
    if a: "req_method req = ''POST'' \<and> req_body req = Inr v \<and>
    get_prop ''query'' v = Inr query \<and> get_prop ''userId'' v = Inr (Str uid) \<and>
    truthy query \<and> uid \<noteq> [] \<and>
    verify_session (configured env) (auth_service env) (req_authorization req) (Str uid) =
      (tr1, Next uid) \<and>
    generateQueryEmbedding env query = (tr2, Next queryEmbedding) \<and>
    documents_error env = None \<and>
    completed_documents (documents (store env)) uid = []"
  proof -
  from a have auth:"verify_session (configured env) (auth_service env) (req_authorization req)
      (Str uid) = (tr1, Next uid)"
    and emb: "generateQueryEmbedding env query = (tr2, Next queryEmbedding)"
    by simp_all
  have find: "findRelevantChunks env queryEmbedding uid = ([SelectDocuments uid], Next [])"
    using a by (simp add: findRelevantChunks_def)
  have "query_try env req =
      ([Log Info ''Processing chat query''] @ tr1 @ tr2 @ [SelectDocuments uid],
       Reply (AnswerJson 200 no_information []))"
    unfolding query_try_def using a
    by (simp add: bindS_lift_Inr bindS_pair find)
  with a show ?thesis
    by (simp add: handle_query_def)
  qed
  from part1 part2 show ?thesis by blast
qed

theorem handle_query_no_documents_witness:
  "req_method (demo_request ''carol'') = ''POST'' \<and>
   truthy (Str (js_of ''Are cats mammals?'')) \<and> js_of ''carol'' \<noteq> [] \<and>
   verify_session (configured demo_env) (auth_service demo_env)
     (req_authorization (demo_request ''carol'')) (Str (js_of ''carol'')) =
     ([AuthGetUser (js_of ''carol'')], Next (js_of ''carol'')) \<and>
   generateQueryEmbedding demo_env (Str (js_of ''Are cats mammals?'')) =
     ([QueryEmbeddingRequest (Str (js_of ''Are cats mammals?''))], Next 0) \<and>
   completed_documents (documents (store demo_env)) (js_of ''carol'') = [] \<and>
   handle_query demo_env (demo_request ''carol'') =
     (AnswerJson 200 no_information [],
      [Log Info ''Processing chat query'', AuthGetUser (js_of ''carol''),
       QueryEmbeddingRequest (Str (js_of ''Are cats mammals?'')),
       SelectDocuments (js_of ''carol'')]) \<and>
   no_chat (snd (handle_query demo_env (demo_request ''carol'')))"
proof -
  let ?q = "Str (js_of ''Are cats mammals?'')"
  let ?v = "Obj [(''query'', ?q), (''userId'', Str (js_of ''carol''))]"
  note inst = handle_query_no_documents
    [of "demo_request ''carol''" demo_env ?v ?q "js_of ''carol''"
        "[AuthGetUser (js_of ''carol'')]" "[QueryEmbeddingRequest ?q]" 0]
  have m: "req_method (demo_request ''carol'') = ''POST''" by (simp add: demo_request_def)
  have b: "req_body (demo_request ''carol'') = Inr ?v" by (simp add: demo_request_def)
  have gq: "get_prop ''query'' ?v = Inr ?q" by simp
  have gu: "get_prop ''userId'' ?v = Inr (Str (js_of ''carol''))" by simp
  have tq: "truthy ?q" by (simp add: js_of_def)
  have ne: "js_of ''carol'' \<noteq> []" by (simp add: js_of_def)
  have auth: "verify_session (configured demo_env) (auth_service demo_env)
     (req_authorization (demo_request ''carol'')) (Str (js_of ''carol'')) =
     ([AuthGetUser (js_of ''carol'')], Next (js_of ''carol''))"
    by code_simp
  have emb: "generateQueryEmbedding demo_env ?q = ([QueryEmbeddingRequest ?q], Next 0)"
    by code_simp
  have de: "documents_error demo_env = None" by (simp add: demo_env_def)
  have nodocs: "completed_documents (documents (store demo_env)) (js_of ''carol'') = []"
    by code_simp
  have fld: "field ''userId'' (demo_request ''carol'') = Str (js_of ''carol'')"
    by (simp add: field_def demo_request_def)
  have run: "handle_query demo_env (demo_request ''carol'') =
     (AnswerJson 200 no_information [],
      [Log Info ''Processing chat query''] @ [AuthGetUser (js_of ''carol'')] @
      [QueryEmbeddingRequest ?q] @ [SelectDocuments (js_of ''carol'')])"
    using inst m b gq gu tq ne auth emb de nodocs by blast
  have "no_chat (snd (handle_query demo_env (demo_request ''carol'')))"
    using inst fld nodocs by auto
  with m tq ne auth emb nodocs run show ?thesis by simp
qed

text \<open>
  The claim as it was stated fails: the query is embedded before the documents are looked
  up, so when the embedding endpoint answers 503 a user without documents gets the
  response 500 and not the fixed answer.
\<close>

theorem handle_query_no_documents_counterexample:
  "completed_documents
     (documents (store (demo_env\<lparr>embedding_endpoint :=
        \<lambda>query. Inr (Response 503 (Inr ''unavailable'') (Inl []))\<rparr>)))
     (js_of ''carol'') = [] \<and>
   handle_query
     (demo_env\<lparr>embedding_endpoint := \<lambda>query. Inr (Response 503 (Inr ''unavailable'') (Inl []))\<rparr>)
     (demo_request ''carol'') =
     (ErrorJson 500 ''Failed to process query. Please try again.'',
      [Log Info ''Processing chat query'', AuthGetUser (js_of ''carol''),
       QueryEmbeddingRequest (Str (js_of ''Are cats mammals?'')),
       Log Err ''Failed to generate query embedding'', Log Err ''Chat query failed''])"
  by code_simp




section \<open>Properties of the ingestion handler\<close>

lemma verify_session_configured:
  "verify_session c a h u = (tr, Next uid) \<Longrightarrow> c"
  by (auto simp: verify_session_def createSupabaseAdmin_def bindS_def
      split: option.splits sum.splits prod.splits if_splits)

lemma handle_ingest_thrown:
  assumes "req_method req = ''POST''" and "ingest_try env req = Some (tr, Throw e)"
  shows "handle_ingest env req = Some (IngestFailed 500 e, tr @ ingest_catch env req)"
  using assms by (simp add: handle_ingest_def)

text \<open>
  A failed download, on any request that carries a document id and passes the
  verification of the session: the handler attempts the write of the status \<open>error\<close>
  and reports the error of the download, whatever the outcome of that write; the outcome
  is logged only when the write throws.
\<close>

lemma ingest_prepare_download_failed:
  assumes b: "req_body req = Inr v"
    and p: "get_prop ''filePath'' v = Inr filePath" "get_prop ''fileName'' v = Inr fileName"
      "get_prop ''userId'' v = Inr userId" "get_prop ''documentId'' v = Inr documentId"
    and auth: "verify_session (ingest_configured env) (ingest_auth_service env)
        (req_authorization req) userId = (tr0, Next uid)"
    and w: "\<forall>message. status_write env ''processing'' \<noteq> WriteThrows message"
    and d: "download env filePath = (tr1, Throw e)"
  shows "ingest_prepare env req =
     (Log Info ''Starting document processing'' # tr0 @
        UpdateStatus documentId ''processing'' # tr1, Throw e)"
proof -
  have u: "update_status env documentId ''processing'' =
      ([UpdateStatus documentId ''processing''], Next ())"
    using w by (simp add: update_status_def split: write_outcome.splits)
  show ?thesis
    unfolding ingest_prepare_def b
    by (simp add: bindS_lift_Inr p bindS_unit bindS_Next[OF auth] bindS_Next[OF u]
        bindS_Throw[OF d])
qed

lemma handle_ingest_download_failed:
  assumes m: "req_method req = ''POST''"
    and b: "req_body req = Inr v"
    and p: "get_prop ''filePath'' v = Inr filePath" "get_prop ''fileName'' v = Inr fileName"
      "get_prop ''userId'' v = Inr userId" "get_prop ''documentId'' v = Inr documentId"
    and t: "truthy documentId"
    and auth: "verify_session (ingest_configured env) (ingest_auth_service env)
        (req_authorization req) userId = (tr0, Next uid)"
    and w: "status_write env ''processing'' = WriteDone"
    and d: "storage_download env filePath = (Some message, fileData)"
    and e: "status_write env ''error'' = outcome"
  shows "handle_ingest env req =
     Some (IngestFailed 500 (DownloadFailed (if message = [] then ''File not found'' else message)),
       Log Info ''Starting document processing'' # tr0 @
       [UpdateStatus documentId ''processing'', Download filePath,
        Log Err ''Document processing failed'', UpdateStatus documentId ''error''] @
       (case outcome of
          WriteThrows message \<Rightarrow> [Log Err ''Failed to update document status to error'']
        | _ \<Rightarrow> []))"
proof -
  let ?e = "DownloadFailed (if message = [] then ''File not found'' else message)"
  have dl: "download env filePath = ([Download filePath], Throw ?e)"
    using d by (simp add: download_def)
  have w': "\<forall>message. status_write env ''processing'' \<noteq> WriteThrows message"
    using w by simp
  have prep: "ingest_prepare env req =
     (Log Info ''Starting document processing'' # tr0 @
        UpdateStatus documentId ''processing'' # [Download filePath], Throw ?e)"
    using b p auth w' dl by (rule ingest_prepare_download_failed)
  have run: "ingest_try env req =
     Some (Log Info ''Starting document processing'' # tr0 @
        UpdateStatus documentId ''processing'' # [Download filePath], Throw ?e)"
    by (simp add: ingest_try_def prep)
  have c: "ingest_configured env" using auth by (rule verify_session_configured)
  have "ingest_catch env req =
      [Log Err ''Document processing failed'', UpdateStatus documentId ''error''] @
       (case outcome of
          WriteThrows message \<Rightarrow> [Log Err ''Failed to update document status to error'']
        | _ \<Rightarrow> [])"
    using b p(4) t c e by (simp add: ingest_catch_def split: write_outcome.splits)
  with handle_ingest_thrown[OF m run] show ?thesis by simp
qed

text \<open>
  Runs of the handler on a failed download, with the write of the status \<open>error\<close> done
  and thrown, and on a failure of the embedding endpoint.
\<close>

lemma handle_ingest_runs:
  "handle_ingest demo_ingest_env (demo_upload [(''documentId'', Str (js_of ''d1''))]) =
     Some (IngestFailed 500 (DownloadFailed ''Object not found''),
       [Log Info ''Starting document processing'', AuthGetUser (js_of ''alice''),
        UpdateStatus (Str (js_of ''d1'')) ''processing'',
        Download (Str (js_of ''alice/a.txt'')),
        Log Err ''Document processing failed'',
        UpdateStatus (Str (js_of ''d1'')) ''error'']) \<and>
   handle_ingest
     (demo_ingest_env\<lparr>status_write :=
        \<lambda>s. if s = ''error'' then WriteThrows ''offline'' else WriteDone\<rparr>)
     (demo_upload [(''documentId'', Str (js_of ''d1''))]) =
     Some (IngestFailed 500 (DownloadFailed ''Object not found''),
       [Log Info ''Starting document processing'', AuthGetUser (js_of ''alice''),
        UpdateStatus (Str (js_of ''d1'')) ''processing'',
        Download (Str (js_of ''alice/a.txt'')),
        Log Err ''Document processing failed'',
        UpdateStatus (Str (js_of ''d1'')) ''error'',
        Log Err ''Failed to update document status to error'']) \<and>
   handle_ingest
     (demo_ingest_env\<lparr>storage_download :=
        \<lambda>path. (None, Some (js_of ''Cats are mammals. Dogs are mammals too.'')),
        embedding_service := \<lambda>n batch. Inr (Response 500 (Inr ''down'') (Inl []))\<rparr>)
     (demo_upload [(''documentId'', Str (js_of ''d1''))]) =
     Some (IngestFailed 500 (GroqApiError 500 ''down''),
       [Log Info ''Starting document processing'', AuthGetUser (js_of ''alice''),
        UpdateStatus (Str (js_of ''d1'')) ''processing'',
        Download (Str (js_of ''alice/a.txt'')),
        Log Info ''Text extracted and chunked'',
        EmbeddingRequest [js_of ''Cats are mammals Dogs are mammals too''],
        Log Err ''Groq API error'', Log Err ''Failed to generate embeddings for batch'',
        Log Err ''Document processing failed'',
        UpdateStatus (Str (js_of ''d1'')) ''error''])"
proof -
  let ?req = "demo_upload [(''documentId'', Str (js_of ''d1''))]"
  let ?v = "Obj ([(''filePath'', Str (js_of ''alice/a.txt'')),
                  (''fileName'', Str (js_of ''a.txt'')),
                  (''userId'', Str (js_of ''alice''))] @ [(''documentId'', Str (js_of ''d1''))])"
  have m: "req_method ?req = ''POST''" by (simp add: demo_upload_def)
  have b: "req_body ?req = Inr ?v" by (simp add: demo_upload_def)
  have p: "get_prop ''filePath'' ?v = Inr (Str (js_of ''alice/a.txt''))"
    "get_prop ''fileName'' ?v = Inr (Str (js_of ''a.txt''))"
    "get_prop ''userId'' ?v = Inr (Str (js_of ''alice''))"
    "get_prop ''documentId'' ?v = Inr (Str (js_of ''d1''))"
    by simp_all
  have t: "truthy (Str (js_of ''d1''))" by (simp add: js_of_def)
  have auth: "verify_session (ingest_configured demo_ingest_env)
     (ingest_auth_service demo_ingest_env) (req_authorization ?req) (Str (js_of ''alice'')) =
     ([AuthGetUser (js_of ''alice'')], Next (js_of ''alice''))"
    by code_simp
  have w: "status_write demo_ingest_env ''processing'' = WriteDone"
    "status_write demo_ingest_env ''error'' = WriteDone"
    by (simp_all add: demo_ingest_env_def)
  have d: "storage_download demo_ingest_env (Str (js_of ''alice/a.txt'')) =
      (Some ''Object not found'', None)"
    by (simp add: demo_ingest_env_def)
  have plain: "handle_ingest demo_ingest_env ?req =
     Some (IngestFailed 500 (DownloadFailed ''Object not found''),
       [Log Info ''Starting document processing'', AuthGetUser (js_of ''alice''),
        UpdateStatus (Str (js_of ''d1'')) ''processing'',
        Download (Str (js_of ''alice/a.txt'')),
        Log Err ''Document processing failed'',
        UpdateStatus (Str (js_of ''d1'')) ''error''])"
    using handle_ingest_download_failed [OF m b p t auth w(1) d w(2)] by simp
  have thrown: "handle_ingest
     (demo_ingest_env\<lparr>status_write :=
        \<lambda>s. if s = ''error'' then WriteThrows ''offline'' else WriteDone\<rparr>) ?req =
     Some (IngestFailed 500 (DownloadFailed ''Object not found''),
       [Log Info ''Starting document processing'', AuthGetUser (js_of ''alice''),
        UpdateStatus (Str (js_of ''d1'')) ''processing'',
        Download (Str (js_of ''alice/a.txt'')),
        Log Err ''Document processing failed'',
        UpdateStatus (Str (js_of ''d1'')) ''error'',
        Log Err ''Failed to update document status to error''])"
    by code_simp
  have groq: "handle_ingest
     (demo_ingest_env\<lparr>storage_download :=
        \<lambda>path. (None, Some (js_of ''Cats are mammals. Dogs are mammals too.'')),
        embedding_service := \<lambda>n batch. Inr (Response 500 (Inr ''down'') (Inl []))\<rparr>) ?req =
     Some (IngestFailed 500 (GroqApiError 500 ''down''),
       [Log Info ''Starting document processing'', AuthGetUser (js_of ''alice''),
        UpdateStatus (Str (js_of ''d1'')) ''processing'',
        Download (Str (js_of ''alice/a.txt'')),
        Log Info ''Text extracted and chunked'',
        EmbeddingRequest [js_of ''Cats are mammals Dogs are mammals too''],
        Log Err ''Groq API error'', Log Err ''Failed to generate embeddings for batch'',
        Log Err ''Document processing failed'',
        UpdateStatus (Str (js_of ''d1'')) ''error''])"
    by code_simp
  from plain thrown groq show ?thesis by (simp only: simp_thms)
qed

text \<open>
  The \<open>catch\<close> block writes the status only \<open>if (documentId)\<close>: a request without a
  document id starts processing, fails at the download, and no write of the status
  \<open>error\<close> is attempted.
\<close>

lemma handle_ingest_no_document_id:
  "field ''documentId'' (demo_upload []) = Undefined \<and>
   ingest_try demo_ingest_env (demo_upload []) =
     Some ([Log Info ''Starting document processing'', AuthGetUser (js_of ''alice''),
            UpdateStatus Undefined ''processing'',
            Download (Str (js_of ''alice/a.txt''))],
           Throw (DownloadFailed ''Object not found'')) \<and>
   handle_ingest demo_ingest_env (demo_upload []) =
     Some (IngestFailed 500 (DownloadFailed ''Object not found''),
       [Log Info ''Starting document processing'', AuthGetUser (js_of ''alice''),
        UpdateStatus Undefined ''processing'',
        Download (Str (js_of ''alice/a.txt'')),
        Log Err ''Document processing failed''])"
  by code_simp

text \<open>
  C7.  A failure of the write of the status \<open>error\<close> is not logged when the write
  resolves with an error, as the queries of the database client do when the database
  refuses them: the \<open>catch\<close> block awaits the update and never reads its result, where
  the download and the insert of the \<open>try\<close> block read \<open>{ error }\<close>.  On a failed
  download of a request that carries a document id, the write is attempted and refused,
  no effect follows it, and the error of the download is reported.
\<close>

theorem handle_ingest_refused_write:
  "status_write
     (demo_ingest_env\<lparr>status_write :=
        \<lambda>s. if s = ''error'' then WriteRefused ''offline'' else WriteDone\<rparr>) ''error'' =
     WriteRefused ''offline'' \<and>
   field ''documentId'' (demo_upload [(''documentId'', Str (js_of ''d1''))]) =
     Str (js_of ''d1'') \<and>
   handle_ingest
     (demo_ingest_env\<lparr>status_write :=
        \<lambda>s. if s = ''error'' then WriteRefused ''offline'' else WriteDone\<rparr>)
     (demo_upload [(''documentId'', Str (js_of ''d1''))]) =
     Some (IngestFailed 500 (DownloadFailed ''Object not found''),
       [Log Info ''Starting document processing'', AuthGetUser (js_of ''alice''),
        UpdateStatus (Str (js_of ''d1'')) ''processing'',
        Download (Str (js_of ''alice/a.txt'')),
        Log Err ''Document processing failed'',
        UpdateStatus (Str (js_of ''d1'')) ''error''])"
  by code_simp

end
